theory Spec2Isabelle
  imports Main "HOL-Library.Char_ord" "HOL-Library.List_Lexorder" "HOL-Library.Product_Lexorder"
begin

section \<open>Chat.jsx: the chat page of chatgram\<close>

text \<open>
  A shallow embedding of \<^verbatim>\<open>src/app/src/pages/Chat.jsx\<close>. A JavaScript string
  is modelled by its UTF-8 encoding, a \<^typ>\<open>string\<close>, with the order of \<^verbatim>\<open>HOL-Library.Char_ord\<close> and
  \<^verbatim>\<open>HOL-Library.List_Lexorder\<close>: the comparison of \<^verbatim>\<open>Array.prototype.sort\<close>
  without a comparator is lexicographic on code units, which for the ASCII uids of the
  authentication service is the lexicographic order on bytes.
\<close>

subsection \<open>Strings\<close>

text \<open>\<^verbatim>\<open>xs.join(sep)\<close>\<close>

fun join :: "string \<Rightarrow> string list \<Rightarrow> string" where
  "join sep [] = []"
| "join sep [x] = x"
| "join sep (x # y # ys) = x @ sep @ join sep (y # ys)"

subsection \<open>Conversation identity\<close>

text \<open>
  Lines 90--93, 289--290 and 343--344 all compute
  \<^verbatim>\<open>[auth.currentUser.uid, uid].sort().join('_')\<close>.
  \<^const>\<open>sort\<close> is the stable insertion sort of the list library; on a two-element list
  it yields the smaller element first, as the JavaScript sort does.
\<close>

definition participants_of :: "string \<Rightarrow> string \<Rightarrow> string list" where
  "participants_of uidA uidB = sort [uidA, uidB]"

definition conversationKey :: "string \<Rightarrow> string \<Rightarrow> string" where
  "conversationKey uidA uidB = join ''_'' (participants_of uidA uidB)"

subsection \<open>Documents\<close>

text \<open>
  \<^verbatim>\<open>auth.currentUser\<close>, a document of the \<^verbatim>\<open>users\<close> collection, a document of the
  \<^verbatim>\<open>groups\<close> collection, a browser \<^verbatim>\<open>File\<close>, the result of the upload hook and the
  \<^verbatim>\<open>fileData\<close> object of lines 177--184. A field that JavaScript may leave
  \<^verbatim>\<open>undefined\<close> or \<^verbatim>\<open>null\<close> is an option.
\<close>

record auth_user =
  auth_uid :: string
  auth_displayName :: "string option"

record user =
  user_uid :: string
  user_name :: "string option"
  user_photoURL :: "string option"

record chat_group =
  group_id :: string

record js_file =
  file_name :: string
  file_size :: nat
  file_type :: string

record upload_result =
  upload_url :: string
  upload_publicId :: string
  upload_resourceType :: string

record file_data =
  fd_url :: string
  fd_name :: string
  fd_size :: nat
  fd_type :: string
  fd_publicId :: string
  fd_resourceType :: string

text \<open>
  A message document, of the collection \<^verbatim>\<open>messages\<close> or \<^verbatim>\<open>aiMessages\<close>. The
  fields are the union of the four object literals of lines 189--195, 231--236 (and 240--245,
  255--260, 267--273), 279--294 and 348--359. An absent string-valued field is \<^const>\<open>None\<close>; an
  absent flag (\<^verbatim>\<open>isAI\<close>, \<^verbatim>\<open>isError\<close>, \<^verbatim>\<open>forwarded\<close>) is \<^const>\<open>False\<close>, which is how
  the page reads it (line 121). In a payload built by the client \<open>msg_id\<close> and
  \<open>timestamp\<close> are placeholders: the store assigns the document id, and
  \<^verbatim>\<open>serverTimestamp()\<close> is resolved by the store when the write is applied.
\<close>

record message =
  msg_id :: nat
  msg_text :: string
  timestamp :: nat
  msg_uid :: "string option"
  userId :: "string option"
  isAI :: bool
  isError :: bool
  fileData :: "file_data option"
  photoURL :: "string option"
  displayName :: "string option"
  conversationId :: "string option"
  receiverId :: "string option"
  groupId :: "string option"
  forwarded :: bool
  originalSender :: "string option"

text \<open>
  A document of the collection \<^verbatim>\<open>conversations\<close>: the four fields the page writes
  (lines 363--368) and, in \<open>otherFields\<close>, whatever else the document holds.
\<close>

record convo =
  participants :: "string list"
  lastMessage :: string
  lastMessageTimestamp :: nat
  unreadCount :: "string \<rightharpoonup> nat"
  otherFields :: "string \<rightharpoonup> string"

text \<open>An object literal with no field set.\<close>

definition empty_doc :: message where
  "empty_doc =
     \<lparr>msg_id = 0, msg_text = [], timestamp = 0, msg_uid = None, userId = None, isAI = False,
      isError = False, fileData = None, photoURL = None, displayName = None,
      conversationId = None, receiverId = None, groupId = None, forwarded = False,
      originalSender = None\<rparr>"

subsection \<open>The document store\<close>

text \<open>
  The store is the Firestore database the page talks to: two message collections in
  insertion order, the conversation documents by id, the server clock that resolves
  \<^verbatim>\<open>serverTimestamp()\<close> and the supply of fresh document ids.
\<close>

datatype collection = Messages | AiMessages

record store =
  clock :: nat
  nextId :: nat
  messagesColl :: "message list"
  aiMessagesColl :: "message list"
  conversations :: "string \<rightharpoonup> convo"

datatype error = UploadFailure | WriteFailure | FetchFailure | GenerationFailure

datatype gen_request =
  TextPrompt string
| ImagePrompt string string string

text \<open>
  The collaborators of the page, as functions of their inputs: which writes the store
  accepts (security rules, document limits, well-formed document ids), the upload hook
  \<^verbatim>\<open>uploadFileToCloudinary\<close>, the download and base64 encoding of an uploaded image
  (lines 209--215; the result is the encoded data and the MIME type of the blob), and the call
  \<^verbatim>\<open>model.generateContent\<close> followed by \<^verbatim>\<open>response.text()\<close>. \<^const>\<open>None\<close> is a
  rejected promise or a thrown exception.
\<close>

record backend =
  acceptsMessage :: "collection \<Rightarrow> message \<Rightarrow> bool"
  acceptsConvo :: "string \<Rightarrow> bool"
  uploadFile :: "js_file \<Rightarrow> upload_result option"
  fetchImage :: "string \<Rightarrow> (string \<times> string) option"
  generateContent :: "gen_request \<Rightarrow> string option"

fun coll_of :: "collection \<Rightarrow> store \<Rightarrow> message list" where
  "coll_of Messages st = messagesColl st"
| "coll_of AiMessages st = aiMessagesColl st"

fun insert_doc :: "collection \<Rightarrow> message \<Rightarrow> store \<Rightarrow> store" where
  "insert_doc Messages m st = st\<lparr>messagesColl := messagesColl st @ [m]\<rparr>"
| "insert_doc AiMessages m st = st\<lparr>aiMessagesColl := aiMessagesColl st @ [m]\<rparr>"

text \<open>\<^verbatim>\<open>await addDoc(collection(db, c), payload)\<close>\<close>

definition addDoc :: "backend \<Rightarrow> collection \<Rightarrow> message \<Rightarrow> store \<Rightarrow> error + store" where
  "addDoc be c payload st =
     (if acceptsMessage be c payload
      then Inr (insert_doc c (payload\<lparr>msg_id := nextId st, timestamp := clock st\<rparr>)
                  (st\<lparr>clock := clock st + 1, nextId := nextId st + 1\<rparr>))
      else Inl WriteFailure)"

subsection \<open>Queries\<close>

text \<open>
  The three queries of lines 91--110 differ in the collection and in the equality filter;
  all are \<^verbatim>\<open>orderBy('timestamp', 'asc')\<close> and \<^verbatim>\<open>limit(50)\<close>. A Firestore query
  filters, orders, and \<^verbatim>\<open>limit(n)\<close> keeps the first \<open>n\<close> documents in that order
  (\<^verbatim>\<open>limitToLast\<close>, which the page does not use, keeps the last \<open>n\<close>).
\<close>

datatype q_where = ConversationIdEq string | GroupIdEq string | UserIdEq string

record query =
  q_collection :: collection
  q_where :: q_where
  q_limit :: nat

fun matches :: "q_where \<Rightarrow> message \<Rightarrow> bool" where
  "matches (ConversationIdEq k) m = (conversationId m = Some k)"
| "matches (GroupIdEq g) m = (groupId m = Some g)"
| "matches (UserIdEq u) m = (userId m = Some u)"

definition matching :: "store \<Rightarrow> query \<Rightarrow> message list" where
  "matching st q = filter (matches (q_where q)) (coll_of (q_collection q) st)"

text \<open>
  The order of \<^verbatim>\<open>orderBy('timestamp', 'asc')\<close>: by timestamp, and documents of equal
  timestamp by document id. Document ids are numbers here, in the order in which the store
  compares ids; a store may hold documents with any ids.
\<close>

definition order_key :: "message \<Rightarrow> nat \<times> nat" where
  "order_key m = (timestamp m, msg_id m)"

definition run_query :: "store \<Rightarrow> query \<Rightarrow> message list" where
  "run_query st q = take (q_limit q) (sort_key order_key (matching st q))"

subsection \<open>The state of the page\<close>

text \<open>
  The values of the realtime database: what \<^verbatim>\<open>snapshot.val()\<close> yields at
  \<^verbatim>\<open>status/uid\<close> (an object with the optional fields \<^verbatim>\<open>status\<close> and
  \<^verbatim>\<open>lastChanged\<close>, or \<^verbatim>\<open>null\<close>) and at \<^verbatim>\<open>typing/uid\<close> (any value).
\<close>

record presence_data =
  pd_status :: "string option"
  pd_lastChanged :: "nat option"

record presence =
  status :: string
  lastChanged :: "nat option"

datatype js_value = JNull | JBool bool | JNum int | JStr string

text \<open>
  The \<^verbatim>\<open>useState\<close> cells of lines 29--43 that the modelled handlers read or write,
  and the three live listeners the effects of lines 87--161 hold: the messages query
  subscribed with \<^verbatim>\<open>onSnapshot\<close> and the uids whose \<^verbatim>\<open>status/\<close> and
  \<^verbatim>\<open>typing/\<close> keys are subscribed with \<^verbatim>\<open>onValue\<close>.
\<close>

record chat_state =
  selectedUser :: "user option"
  selectedGroup :: "chat_group option"
  selectedAI :: bool
  newMessage :: string
  selectedFile :: "js_file option"
  messages :: "message list"
  currentUserData :: "user option"
  typingStatus :: "string \<rightharpoonup> js_value"
  userStatus :: "string \<rightharpoonup> presence"
  loading :: bool
  aiLoading :: bool
  messagesListener :: "query option"
  statusListener :: "string option"
  typingListener :: "string option"

definition initial_state :: chat_state where
  "initial_state =
     \<lparr>selectedUser = None, selectedGroup = None, selectedAI = False, newMessage = [],
      selectedFile = None, messages = [], currentUserData = None,
      typingStatus = Map.empty, userStatus = Map.empty, loading = False, aiLoading = False,
      messagesListener = None, statusListener = None, typingListener = None\<rparr>"

subsection \<open>Selection handlers\<close>

text \<open>Lines 398--402, 403--407 and 308--316.\<close>

definition onUserSelect :: "user \<Rightarrow> chat_state \<Rightarrow> chat_state" where
  "onUserSelect u s = s\<lparr>selectedUser := Some u, selectedGroup := None, selectedAI := False\<rparr>"

definition onGroupSelect :: "chat_group \<Rightarrow> chat_state \<Rightarrow> chat_state" where
  "onGroupSelect g s = s\<lparr>selectedGroup := Some g, selectedUser := None, selectedAI := False\<rparr>"

definition handleNavigate :: "string \<Rightarrow> chat_state \<Rightarrow> chat_state" where
  "handleNavigate page s =
     (if page = ''ai''
      then s\<lparr>selectedAI := True, selectedUser := None, selectedGroup := None\<rparr>
      else s\<lparr>selectedAI := False\<rparr>)"

text \<open>How many of the three selection cells are truthy.\<close>

definition selected_count :: "chat_state \<Rightarrow> nat" where
  "selected_count s =
     (if selectedUser s \<noteq> None then 1 else 0) + (if selectedGroup s \<noteq> None then 1 else 0)
     + (if selectedAI s then 1 else 0)"

subsection \<open>Effects\<close>

text \<open>
  The query the messages effect builds (lines 88--114): the conversation of the selected
  user, else the selected group, else the AI stream of the current user; \<^const>\<open>None\<close>
  is the last branch, which subscribes to nothing.
\<close>

definition messagesQuery :: "auth_user \<Rightarrow> chat_state \<Rightarrow> query option" where
  "messagesQuery auth s =
     (case selectedUser s of
        Some u \<Rightarrow>
          Some \<lparr>q_collection = Messages,
                q_where = ConversationIdEq (conversationKey (auth_uid auth) (user_uid u)),
                q_limit = 50\<rparr>
      | None \<Rightarrow>
          (case selectedGroup s of
             Some g \<Rightarrow>
               Some \<lparr>q_collection = Messages, q_where = GroupIdEq (group_id g), q_limit = 50\<rparr>
           | None \<Rightarrow>
               if selectedAI s
               then Some \<lparr>q_collection = AiMessages, q_where = UserIdEq (auth_uid auth),
                          q_limit = 50\<rparr>
               else None))"

text \<open>
  One run of the messages effect (lines 87--127) after its dependencies changed: the cleanup
  of the previous run unsubscribes the old listener, then the body subscribes to the new
  query; \<^verbatim>\<open>setMessages([])\<close> is called in the last branch only.
\<close>

definition messages_effect :: "auth_user \<Rightarrow> chat_state \<Rightarrow> chat_state" where
  "messages_effect auth s =
     (case messagesQuery auth s of
        Some q \<Rightarrow> s\<lparr>messagesListener := Some q\<rparr>
      | None \<Rightarrow> s\<lparr>messages := [], messagesListener := None\<rparr>)"

text \<open>
  One run of the status effect (lines 130--146) and of the typing effect (lines 149--161):
  \<^verbatim>\<open>off(ref)\<close> of the previous run, then a listener for the selected user when it has
  a truthy uid.
\<close>

definition listened_uid :: "chat_state \<Rightarrow> string option" where
  "listened_uid s =
     (case selectedUser s of
        None \<Rightarrow> None
      | Some u \<Rightarrow> if user_uid u = [] then None else Some (user_uid u))"

definition status_effect :: "chat_state \<Rightarrow> chat_state" where
  "status_effect s = s\<lparr>statusListener := listened_uid s\<rparr>"

definition typing_effect :: "chat_state \<Rightarrow> chat_state" where
  "typing_effect s = s\<lparr>typingListener := listened_uid s\<rparr>"

text \<open>
  After a handler has run the page renders again, and an effect runs when one of its
  dependencies differs from the previous render: the three selection cells for the messages
  effect, \<^verbatim>\<open>selectedUser\<close> for the other two. React compares objects by identity and
  the model by value; a run that React adds for an equal object subscribes to the same
  query and the same keys again, and leaves the modelled state as it is.
\<close>

definition run_effects :: "auth_user \<Rightarrow> chat_state \<Rightarrow> chat_state \<Rightarrow> chat_state" where
  "run_effects auth old new =
     (let s1 = (if selectedUser new = selectedUser old \<and> selectedGroup new = selectedGroup old
                   \<and> selectedAI new = selectedAI old
                then new else messages_effect auth new)
      in if selectedUser new = selectedUser old then s1
         else typing_effect (status_effect s1))"

subsection \<open>Listener callbacks\<close>

text \<open>
  The callback of \<^verbatim>\<open>onSnapshot\<close> (lines 116--124) replaces \<^verbatim>\<open>messages\<close> by the
  documents of the subscribed query; an unsubscribed listener is not called.
\<close>

definition on_messages_snapshot :: "store \<Rightarrow> chat_state \<Rightarrow> chat_state" where
  "on_messages_snapshot st s =
     (case messagesListener s of
        None \<Rightarrow> s
      | Some q \<Rightarrow> s\<lparr>messages := run_query st q\<rparr>)"

text \<open>
  \<^verbatim>\<open>{status: data?.status || 'offline', lastChanged: data?.lastChanged}\<close>; the empty
  string is falsy.
\<close>

definition presence_of :: "presence_data option \<Rightarrow> presence" where
  "presence_of data =
     (case data of
        None \<Rightarrow> \<lparr>status = ''offline'', lastChanged = None\<rparr>
      | Some d \<Rightarrow>
          \<lparr>status = (case pd_status d of None \<Rightarrow> ''offline''
                       | Some x \<Rightarrow> if x = [] then ''offline'' else x),
           lastChanged = pd_lastChanged d\<rparr>)"

text \<open>The callbacks of \<^verbatim>\<open>onValue\<close> (lines 134--143 and 153--158).\<close>

definition on_status_value :: "presence_data option \<Rightarrow> chat_state \<Rightarrow> chat_state" where
  "on_status_value data s =
     (case statusListener s of
        None \<Rightarrow> s
      | Some uid \<Rightarrow> s\<lparr>userStatus := (userStatus s)(uid \<mapsto> presence_of data)\<rparr>)"

definition on_typing_value :: "js_value \<Rightarrow> chat_state \<Rightarrow> chat_state" where
  "on_typing_value v s =
     (case typingListener s of
        None \<Rightarrow> s
      | Some uid \<Rightarrow> s\<lparr>typingStatus := (typingStatus s)(uid \<mapsto> v)\<rparr>)"

subsection \<open>Events of a session\<close>

datatype event =
  UserSelect user
| GroupSelect chat_group
| Navigate string
| MessagesSnapshot store
| StatusValue "presence_data option"
| TypingValue js_value

fun step :: "auth_user \<Rightarrow> chat_state \<Rightarrow> event \<Rightarrow> chat_state" where
  "step auth s (UserSelect u) = run_effects auth s (onUserSelect u s)"
| "step auth s (GroupSelect g) = run_effects auth s (onGroupSelect g s)"
| "step auth s (Navigate page) = run_effects auth s (handleNavigate page s)"
| "step auth s (MessagesSnapshot st) = on_messages_snapshot st s"
| "step auth s (StatusValue data) = on_status_value data s"
| "step auth s (TypingValue v) = on_typing_value v s"

definition run :: "auth_user \<Rightarrow> chat_state \<Rightarrow> event list \<Rightarrow> chat_state" where
  "run auth s evs = foldl (step auth) s evs"

text \<open>In a reachable state the two listeners are those of the selected user.\<close>

definition listeners_ok :: "chat_state \<Rightarrow> bool" where
  "listeners_ok s = (statusListener s = listened_uid s \<and> typingListener s = listened_uid s)"

subsection \<open>Sending a message\<close>

text \<open>
  \<^verbatim>\<open>!newMessage.trim()\<close>: the text is empty once the white space and the line
  terminators of JavaScript are trimmed, that is, it consists of such code points only.
  Those of one byte are TAB, LF, VT, FF, CR and SP; U+00A0 is the two bytes C2 A0; those
  of three bytes are U+1680, U+2000 to U+200A, U+2028, U+2029, U+202F, U+205F, U+3000 and
  U+FEFF.
\<close>

definition space1 :: "char \<Rightarrow> bool" where
  "space1 c = (c \<in> set [CHR 0x09, CHR 0x0A, CHR 0x0B, CHR 0x0C, CHR 0x0D, CHR 0x20])"

definition space3 :: "char \<Rightarrow> char \<Rightarrow> char \<Rightarrow> bool" where
  "space3 c d e =
     ((c = CHR 0xE1 \<and> d = CHR 0x9A \<and> e = CHR 0x80)
      \<or> (c = CHR 0xE2 \<and> d = CHR 0x80
          \<and> e \<in> set [CHR 0x80, CHR 0x81, CHR 0x82, CHR 0x83, CHR 0x84, CHR 0x85, CHR 0x86,
                       CHR 0x87, CHR 0x88, CHR 0x89, CHR 0x8A, CHR 0xA8, CHR 0xA9, CHR 0xAF])
      \<or> (c = CHR 0xE2 \<and> d = CHR 0x81 \<and> e = CHR 0x9F)
      \<or> (c = CHR 0xE3 \<and> d = CHR 0x80 \<and> e = CHR 0x80)
      \<or> (c = CHR 0xEF \<and> d = CHR 0xBB \<and> e = CHR 0xBF))"

fun blank :: "string \<Rightarrow> bool" where
  "blank [] = True"
| "blank [c] = space1 c"
| "blank [c, d] = (if space1 c then blank [d] else c = CHR 0xC2 \<and> d = CHR 0xA0)"
| "blank (c # d # e # cs) =
     (if space1 c then blank (d # e # cs)
      else if c = CHR 0xC2 \<and> d = CHR 0xA0 then blank (e # cs)
      else space3 c d e \<and> blank cs)"

text \<open>\<^verbatim>\<open>a || b\<close> on values that are a string, \<^verbatim>\<open>null\<close> or \<^verbatim>\<open>undefined\<close>.\<close>

fun js_or :: "string option \<Rightarrow> string option \<Rightarrow> string option" where
  "js_or None b = b"
| "js_or (Some x) b = (if x = [] then b else Some x)"

text \<open>Lines 174--185: the upload of the selected file, if any.\<close>

definition fileData_of :: "js_file \<Rightarrow> upload_result \<Rightarrow> file_data" where
  "fileData_of f r =
     \<lparr>fd_url = upload_url r, fd_name = file_name f, fd_size = file_size f,
      fd_type = file_type f, fd_publicId = upload_publicId r,
      fd_resourceType = upload_resourceType r\<rparr>"

definition upload_step :: "backend \<Rightarrow> js_file option \<Rightarrow> error + file_data option" where
  "upload_step be sf =
     (case sf of
        None \<Rightarrow> Inr None
      | Some f \<Rightarrow>
          (case uploadFile be f of
             None \<Rightarrow> Inl UploadFailure
           | Some r \<Rightarrow> Inr (Some (fileData_of f r))))"

text \<open>The object literals of lines 189--195, 231--236 (also 240--245, 255--260) and 267--273.\<close>

definition userMessage :: "auth_user \<Rightarrow> string \<Rightarrow> file_data option \<Rightarrow> message" where
  "userMessage auth txt fd =
     empty_doc\<lparr>msg_text := txt, userId := Some (auth_uid auth), isAI := False, fileData := fd\<rparr>"

definition aiMessage :: "auth_user \<Rightarrow> string \<Rightarrow> message" where
  "aiMessage auth txt = empty_doc\<lparr>msg_text := txt, userId := Some (auth_uid auth), isAI := True\<rparr>"

definition apology :: string where
  "apology = ''Sorry, I encountered an error while processing your request. Please try again.''"

definition errorMessage :: "auth_user \<Rightarrow> message" where
  "errorMessage auth =
     empty_doc\<lparr>msg_text := apology, userId := Some (auth_uid auth), isAI := True,
               isError := True\<rparr>"

text \<open>Lines 279--294: the message of a user or group chat, with its routing fields.\<close>

definition messageData :: "auth_user \<Rightarrow> chat_state \<Rightarrow> file_data option \<Rightarrow> message" where
  "messageData auth s fd =
     (let base = empty_doc
            \<lparr>msg_text := newMessage s, msg_uid := Some (auth_uid auth),
             photoURL := js_or (Option.bind (currentUserData s) user_photoURL) None,
             displayName := js_or (Option.bind (currentUserData s) user_name)
                              (js_or (auth_displayName auth) (Some ''Unknown'')),
             fileData := fd\<rparr>
      in case selectedUser s of
           Some u \<Rightarrow>
             base\<lparr>conversationId := Some (conversationKey (auth_uid auth) (user_uid u)),
                  receiverId := Some (user_uid u)\<rparr>
         | None \<Rightarrow>
             (case selectedGroup s of
                Some g \<Rightarrow> base\<lparr>groupId := Some (group_id g)\<rparr>
              | None \<Rightarrow> base))"

text \<open>
  \<^verbatim>\<open>selectedFile.type.startsWith('image/')\<close>, \<^verbatim>\<open>selectedFile.type.split('/')[0]\<close> and
  the template literal of line 241.
\<close>

definition is_image :: "js_file \<Rightarrow> bool" where
  "is_image f = (take 6 (file_type f) = ''image/'')"

definition file_category :: "js_file \<Rightarrow> string" where
  "file_category f = takeWhile (\<lambda>c. c \<noteq> CHR ''/'') (file_type f)"

definition ack_text :: "js_file \<Rightarrow> string \<Rightarrow> string" where
  "ack_text f prompt =
     ''I received your '' @ file_category f @ '' file '' @ [CHR 0x22] @ file_name f
       @ [CHR 0x22] @ ''. ''
       @ (if prompt \<noteq> [] then ''Regarding your message: '' @ prompt
          else ''How can I help you with this file?'')"

text \<open>
  The text of the assistant message, lines 203--228, 241 and 250--252, with the requests
  made to the generation backend: an image is downloaded and sent with the prompt (or with
  the default question when the prompt is empty), any other file is acknowledged without a
  request, and a turn without file sends the prompt alone. \<^const>\<open>Inl\<close> is an exception
  thrown inside the inner \<^verbatim>\<open>try\<close>.
\<close>

definition assistant_reply ::
  "backend \<Rightarrow> string \<Rightarrow> js_file option \<Rightarrow> file_data option
     \<Rightarrow> gen_request list \<times> (error + string)" where
  "assistant_reply be prompt sf fd =
     (case (sf, fd) of
        (Some f, Some d) \<Rightarrow>
          if is_image f
          then (case fetchImage be (fd_url d) of
                  None \<Rightarrow> ([], Inl FetchFailure)
                | Some (image_data, mime) \<Rightarrow>
                    (let req = ImagePrompt
                           (if prompt \<noteq> [] then prompt else ''What do you see in this image?'')
                           image_data mime
                     in ([req], case generateContent be req of
                                  None \<Rightarrow> Inl GenerationFailure
                                | Some t \<Rightarrow> Inr t)))
          else ([], Inr (ack_text f prompt))
      | _ \<Rightarrow>
          ([TextPrompt prompt], case generateContent be (TextPrompt prompt) of
                                  None \<Rightarrow> Inl GenerationFailure
                                | Some t \<Rightarrow> Inr t))"

text \<open>
  The inner \<^verbatim>\<open>try\<close>/\<^verbatim>\<open>catch\<close> of lines 200--275: the assistant message is appended
  inside the \<^verbatim>\<open>try\<close>, so a rejected append is caught like a failed generation; the
  \<^verbatim>\<open>catch\<close> appends the apology, and a rejection of that append leaves the block as
  an exception.
\<close>

definition ai_respond ::
  "backend \<Rightarrow> auth_user \<Rightarrow> string \<Rightarrow> js_file option \<Rightarrow> file_data option \<Rightarrow> store
     \<Rightarrow> gen_request list \<times> (error + store)" where
  "ai_respond be auth prompt sf fd st =
     (case assistant_reply be prompt sf fd of
        (calls, r) \<Rightarrow>
          (calls,
           case (case r of
                   Inl e \<Rightarrow> Inl e
                 | Inr t \<Rightarrow> addDoc be AiMessages (aiMessage auth t) st) of
             Inr st' \<Rightarrow> Inr st'
           | Inl e \<Rightarrow> addDoc be AiMessages (errorMessage auth) st))"

text \<open>
  What a call of \<^verbatim>\<open>handleSubmit\<close> can change: the state of the page, the store, the
  \<^verbatim>\<open>alert\<close> dialogs shown, and the requests made to the generation backend.
\<close>

datatype notification = FailedToSend | FailedToForward error

record world =
  ui :: chat_state
  db :: store
  alerts :: "notification list"
  genCalls :: "gen_request list"

text \<open>The condition of the early return of line 170.\<close>

definition send_guard :: "chat_state \<Rightarrow> bool" where
  "send_guard s =
     ((blank (newMessage s) \<and> selectedFile s = None)
      \<or> (selectedUser s = None \<and> selectedGroup s = None \<and> \<not> selectedAI s))"

text \<open>The outer \<^verbatim>\<open>catch\<close> (lines 301--304) and the end of the outer \<^verbatim>\<open>try\<close> (299--300), each followed by line 305.\<close>

definition send_failed :: "world \<Rightarrow> world" where
  "send_failed w = w\<lparr>alerts := alerts w @ [FailedToSend], ui := (ui w)\<lparr>loading := False\<rparr>\<rparr>"

definition send_done :: "world \<Rightarrow> world" where
  "send_done w =
     w\<lparr>ui := (ui w)\<lparr>newMessage := [], selectedFile := None, loading := False\<rparr>\<rparr>"

text \<open>Lines 168--306.\<close>

definition handleSubmit :: "backend \<Rightarrow> auth_user \<Rightarrow> world \<Rightarrow> world" where
  "handleSubmit be auth w =
     (let s = ui w in
      if send_guard s then w
      else
        case upload_step be (selectedFile s) of
          Inl e \<Rightarrow> send_failed w
        | Inr fd \<Rightarrow>
            if selectedAI s
            then (case addDoc be AiMessages (userMessage auth (newMessage s) fd) (db w) of
                    Inl e \<Rightarrow> send_failed w
                  | Inr st1 \<Rightarrow>
                      (case ai_respond be auth (newMessage s) (selectedFile s) fd st1 of
                         (calls, Inl e) \<Rightarrow>
                           send_failed
                             (w\<lparr>db := st1, genCalls := genCalls w @ calls,
                                ui := (ui w)\<lparr>aiLoading := True\<rparr>\<rparr>)
                       | (calls, Inr st2) \<Rightarrow>
                           send_done
                             (w\<lparr>db := st2, genCalls := genCalls w @ calls,
                                ui := (ui w)\<lparr>aiLoading := False\<rparr>\<rparr>)))
            else (case addDoc be Messages (messageData auth s fd) (db w) of
                    Inl e \<Rightarrow> send_failed w
                  | Inr st1 \<Rightarrow> send_done (w\<lparr>db := st1\<rparr>)))"

text \<open>
  The assistant-tagged documents that a call has added to the AI stream, and the draft
  input of the page.
\<close>

definition new_ai_docs :: "world \<Rightarrow> world \<Rightarrow> message list" where
  "new_ai_docs w w' =
     filter isAI (drop (length (aiMessagesColl (db w))) (aiMessagesColl (db w')))"

definition draft :: "world \<Rightarrow> string \<times> js_file option" where
  "draft w = (newMessage (ui w), selectedFile (ui w))"

subsection \<open>Forwarding a message\<close>

text \<open>
  The data of the conversation upsert, lines 363--368: \<open>patch_unreadCount\<close> lists the keys
  of the nested \<^verbatim>\<open>unreadCount\<close> object, here the one key of the recipient;
  \<^verbatim>\<open>lastMessageTimestamp\<close> is \<^verbatim>\<open>serverTimestamp()\<close>, resolved at the commit.
\<close>

record convo_patch =
  patch_participants :: "string list"
  patch_lastMessage :: string
  patch_unreadCount :: "(string \<times> nat) list"

text \<open>
  The two kinds of write the batch holds: \<^verbatim>\<open>batch.set(newMessageRef, data)\<close> on a
  fresh document of \<^verbatim>\<open>messages\<close>, and
  \<^verbatim>\<open>batch.set(convoRef, convoData, {merge: true})\<close> on the conversation of a given id.
\<close>

datatype write_op = SetDoc message | SetMerge string convo_patch

text \<open>
  \<^verbatim>\<open>set\<close> with \<^verbatim>\<open>{merge: true}\<close>: the fields of the data replace those of the
  document, a nested map is merged key by key, and every other field of the document
  stays; a missing document is created from the data alone.
\<close>

definition set_merge :: "convo_patch \<Rightarrow> nat \<Rightarrow> convo option \<Rightarrow> convo" where
  "set_merge p t existing =
     (case existing of
        None \<Rightarrow>
          \<lparr>participants = patch_participants p, lastMessage = patch_lastMessage p,
           lastMessageTimestamp = t, unreadCount = map_of (patch_unreadCount p),
           otherFields = Map.empty\<rparr>
      | Some c \<Rightarrow>
          c\<lparr>participants := patch_participants p, lastMessage := patch_lastMessage p,
            lastMessageTimestamp := t,
            unreadCount := unreadCount c ++ map_of (patch_unreadCount p)\<rparr>)"

fun apply_write :: "nat \<Rightarrow> store \<Rightarrow> write_op \<Rightarrow> store" where
  "apply_write t st (SetDoc m) =
     st\<lparr>messagesColl := messagesColl st @ [m\<lparr>msg_id := nextId st, timestamp := t\<rparr>],
        nextId := nextId st + 1\<rparr>"
| "apply_write t st (SetMerge k p) =
     st\<lparr>conversations := (conversations st)(k \<mapsto> set_merge p t (conversations st k))\<rparr>"

fun valid_write :: "backend \<Rightarrow> write_op \<Rightarrow> bool" where
  "valid_write be (SetDoc m) = acceptsMessage be Messages m"
| "valid_write be (SetMerge k p) = acceptsConvo be k"

text \<open>
  \<^verbatim>\<open>await batch.commit()\<close>: the writes are applied in order, all at the same server
  time, when every one of them is valid; otherwise none is applied and the promise rejects.
\<close>

definition commit :: "backend \<Rightarrow> write_op list \<Rightarrow> store \<Rightarrow> error + store" where
  "commit be ws st =
     (if list_all (valid_write be) ws
      then Inr ((foldl (apply_write (clock st)) st ws)\<lparr>clock := clock st + 1\<rparr>)
      else Inl WriteFailure)"

text \<open>Lines 348--359; \<^verbatim>\<open>message.uid || (message.isAI ? "AI" : "Unknown")\<close>.\<close>

definition forwardedMessage ::
  "auth_user \<Rightarrow> user option \<Rightarrow> message \<Rightarrow> string \<Rightarrow> message" where
  "forwardedMessage auth cud message uid =
     empty_doc
       \<lparr>msg_text := msg_text message, msg_uid := Some (auth_uid auth), forwarded := True,
        originalSender := js_or (msg_uid message) (Some (if isAI message then ''AI'' else ''Unknown'')),
        fileData := fileData message,
        photoURL := js_or (Option.bind cud user_photoURL) None,
        displayName := js_or (Option.bind cud user_name)
                         (js_or (auth_displayName auth) (Some ''Unknown'')),
        conversationId := Some (conversationKey (auth_uid auth) uid),
        receiverId := Some uid\<rparr>"

text \<open>
  Lines 363--368. The paperclip of the template literal is the code point U+1F4CE, here
  its four bytes in UTF-8.
\<close>

definition paperclip :: string where
  "paperclip = [CHR 0xF0, CHR 0x9F, CHR 0x93, CHR 0x8E]"

definition lastMessage_of :: "message \<Rightarrow> string" where
  "lastMessage_of message =
     (if msg_text message \<noteq> [] then msg_text message
      else case fileData message of
             Some d \<Rightarrow> paperclip @ '' '' @ fd_name d
           | None \<Rightarrow> ''File'')"

definition convoData :: "auth_user \<Rightarrow> message \<Rightarrow> string \<Rightarrow> convo_patch" where
  "convoData auth message uid =
     \<lparr>patch_participants = participants_of (auth_uid auth) uid,
      patch_lastMessage = lastMessage_of message,
      patch_unreadCount = [(uid, 1)]\<rparr>"

text \<open>The two writes of one turn of the loop of lines 342--371.\<close>

definition forward_writes ::
  "auth_user \<Rightarrow> user option \<Rightarrow> message \<Rightarrow> string \<Rightarrow> write_op list" where
  "forward_writes auth cud message uid =
     [SetDoc (forwardedMessage auth cud message uid),
      SetMerge (conversationKey (auth_uid auth) uid) (convoData auth message uid)]"

text \<open>
  Lines 337--379: the result is the store and the \<^verbatim>\<open>alert\<close> dialogs shown.
  \<open>cud\<close> is \<^verbatim>\<open>currentUserData\<close>.
\<close>

definition handleForwardMessage ::
  "backend \<Rightarrow> auth_user \<Rightarrow> user option \<Rightarrow> message \<Rightarrow> string list \<Rightarrow> store
     \<Rightarrow> store \<times> notification list" where
  "handleForwardMessage be auth cud message recipientIds st =
     (case commit be (concat (map (forward_writes auth cud message) recipientIds)) st of
        Inr st' \<Rightarrow> (st', [])
      | Inl e \<Rightarrow> (st, [FailedToForward e]))"

subsection \<open>The recent window, in the words of the specification\<close>

text \<open>
  ``The 50 most recent'' messages of a stream, delivered in ascending order of timestamp:
  the last \<open>n\<close> of the stream in the order of the query. This follows the specification, not
  the source, and is what the query of the source is compared with.
\<close>

definition most_recent :: "nat \<Rightarrow> message list \<Rightarrow> message list" where
  "most_recent n ms = drop (length ms - n) (sort_key order_key ms)"

subsection \<open>Sample data\<close>

text \<open>A signed-in user, two other users and a group, for the concrete runs below.\<close>

definition alice :: auth_user where
  "alice = \<lparr>auth_uid = ''alice'', auth_displayName = Some ''Alice''\<rparr>"

definition bob :: user where
  "bob = \<lparr>user_uid = ''bob'', user_name = Some ''Bob'', user_photoURL = None\<rparr>"

definition carol :: user where
  "carol = \<lparr>user_uid = ''carol'', user_name = Some ''Carol'', user_photoURL = None\<rparr>"

definition team :: chat_group where
  "team = \<lparr>group_id = ''team''\<rparr>"

text \<open>A group holding 51 messages, with the query of its stream.\<close>

definition group_message :: "string \<Rightarrow> nat \<Rightarrow> message" where
  "group_message g t =
     empty_doc\<lparr>msg_id := t, msg_text := ''hi'', timestamp := t, msg_uid := Some ''alice'',
               groupId := Some g\<rparr>"

definition busy_store :: store where
  "busy_store =
     \<lparr>clock = 52, nextId = 52, messagesColl = map (group_message ''team'') [1..<52],
      aiMessagesColl = [], conversations = Map.empty\<rparr>"

definition team_query :: query where
  "team_query = \<lparr>q_collection = Messages, q_where = GroupIdEq ''team'', q_limit = 50\<rparr>"

text \<open>A store holding one message of bob to alice.\<close>

definition direct_message :: message where
  "direct_message =
     empty_doc\<lparr>msg_id := 1, msg_text := ''hello'', timestamp := 1, msg_uid := Some ''bob'',
               conversationId := Some ''alice_bob'', receiverId := Some ''alice''\<rparr>"

definition dm_store :: store where
  "dm_store =
     \<lparr>clock = 2, nextId = 2, messagesColl = [direct_message], aiMessagesColl = [],
      conversations = Map.empty\<rparr>"

text \<open>
  Store rules that accept every document, that reject assistant-tagged documents, and that
  reject assistant-tagged documents other than the apology; an upload service that works; a
  generation backend that answers and one that throws.
\<close>

definition accept_all :: "collection \<Rightarrow> message \<Rightarrow> bool" where
  "accept_all c m = True"

definition users_only :: "collection \<Rightarrow> message \<Rightarrow> bool" where
  "users_only c m = (\<not> isAI m)"

definition no_plain_reply :: "collection \<Rightarrow> message \<Rightarrow> bool" where
  "no_plain_reply c m = (\<not> isAI m \<or> isError m)"

definition any_id :: "string \<Rightarrow> bool" where
  "any_id k = True"

definition upload_ok :: "js_file \<Rightarrow> upload_result option" where
  "upload_ok f =
     Some \<lparr>upload_url = ''https://files.example/'' @ file_name f, upload_publicId = file_name f,
           upload_resourceType = ''raw''\<rparr>"

definition no_fetch :: "string \<Rightarrow> (string \<times> string) option" where
  "no_fetch u = None"

definition gen_hello :: "gen_request \<Rightarrow> string option" where
  "gen_hello r = Some ''Hello!''"

definition gen_fails :: "gen_request \<Rightarrow> string option" where
  "gen_fails r = None"

definition backend_ok :: backend where
  "backend_ok =
     \<lparr>acceptsMessage = accept_all, acceptsConvo = any_id, uploadFile = upload_ok,
      fetchImage = no_fetch, generateContent = gen_hello\<rparr>"

definition backend_throws :: backend where
  "backend_throws =
     \<lparr>acceptsMessage = accept_all, acceptsConvo = any_id, uploadFile = upload_ok,
      fetchImage = no_fetch, generateContent = gen_fails\<rparr>"

definition backend_users_only :: backend where
  "backend_users_only =
     \<lparr>acceptsMessage = users_only, acceptsConvo = any_id, uploadFile = upload_ok,
      fetchImage = no_fetch, generateContent = gen_fails\<rparr>"

definition backend_no_plain_reply :: backend where
  "backend_no_plain_reply =
     \<lparr>acceptsMessage = no_plain_reply, acceptsConvo = any_id, uploadFile = upload_ok,
      fetchImage = no_fetch, generateContent = gen_hello\<rparr>"

text \<open>An empty store, and the page with the AI target selected and a draft typed.\<close>

definition empty_store :: store where
  "empty_store =
     \<lparr>clock = 1, nextId = 1, messagesColl = [], aiMessagesColl = [],
      conversations = Map.empty\<rparr>"

definition ai_world :: world where
  "ai_world =
     \<lparr>ui = initial_state\<lparr>selectedAI := True, newMessage := ''hi''\<rparr>, db = empty_store,
      alerts = [], genCalls = []\<rparr>"

definition report_pdf :: js_file where
  "report_pdf = \<lparr>file_name = ''report.pdf'', file_size = 1000, file_type = ''application/pdf''\<rparr>"

definition pdf_world :: world where
  "pdf_world =
     \<lparr>ui = initial_state\<lparr>selectedAI := True, selectedFile := Some report_pdf\<rparr>,
      db = empty_store, alerts = [], genCalls = []\<rparr>"

definition bob_world :: world where
  "bob_world =
     \<lparr>ui = initial_state\<lparr>selectedUser := Some bob, newMessage := ''hi''\<rparr>, db = empty_store,
      alerts = [], genCalls = []\<rparr>"

text \<open>Collaborators that are down: no upload succeeds and the store rejects every write.\<close>

definition reject_all :: "collection \<Rightarrow> message \<Rightarrow> bool" where
  "reject_all c m = False"

definition no_upload :: "js_file \<Rightarrow> upload_result option" where
  "no_upload f = None"

definition backend_offline :: backend where
  "backend_offline =
     \<lparr>acceptsMessage = reject_all, acceptsConvo = any_id, uploadFile = no_upload,
      fetchImage = no_fetch, generateContent = gen_fails\<rparr>"

definition file_world :: world where
  "file_world =
     \<lparr>ui = initial_state\<lparr>selectedUser := Some bob, selectedFile := Some report_pdf\<rparr>,
      db = empty_store, alerts = [], genCalls = []\<rparr>"

text \<open>Rules that reject a conversation id holding a slash, and a text message to forward.\<close>

definition no_slash :: "string \<Rightarrow> bool" where
  "no_slash k = (CHR ''/'' \<notin> set k)"

definition backend_strict_ids :: backend where
  "backend_strict_ids =
     \<lparr>acceptsMessage = accept_all, acceptsConvo = no_slash, uploadFile = upload_ok,
      fetchImage = no_fetch, generateContent = gen_hello\<rparr>"

definition hello_message :: message where
  "hello_message = empty_doc\<lparr>msg_id := 7, msg_text := ''hello'', timestamp := 7,
                             msg_uid := Some ''alice''\<rparr>"



section \<open>Properties\<close>

subsection \<open>Conversation keys\<close>

lemma conversationKey_min_max:
  "conversationKey a b = min a b @ CHR ''_'' # max a b"
  by (auto simp: conversationKey_def participants_of_def min_def max_def)

lemma takeWhile_sep:
  "c \<notin> set x \<Longrightarrow> takeWhile (\<lambda>d. d \<noteq> c) (x @ c # y) = x"
  by (induction x) auto

lemma sep_split_unique:
  assumes "x @ c # y = x' @ c # y'" and "c \<notin> set x" and "c \<notin> set x'"
  shows "x = x' \<and> y = y'"
proof -
  have "takeWhile (\<lambda>d. d \<noteq> c) (x @ c # y) = takeWhile (\<lambda>d. d \<noteq> c) (x' @ c # y')"
    using assms(1) by (rule arg_cong)
  moreover have "takeWhile (\<lambda>d. d \<noteq> c) (x @ c # y) = x"
    using assms(2) by (rule takeWhile_sep)
  moreover have "takeWhile (\<lambda>d. d \<noteq> c) (x' @ c # y') = x'"
    using assms(3) by (rule takeWhile_sep)
  ultimately have "x = x'" by (simp only:)
  with assms(1) show ?thesis by simp
qed

lemma min_max_pair_eq:
  fixes a b c d :: "'a::linorder"
  assumes "min a b = min c d" and "max a b = max c d"
  shows "{a, b} = {c, d}"
  using assms by (auto simp: min_def max_def split: if_splits)

lemma conversationKey_injective:
  assumes free: "CHR ''_'' \<notin> set a \<union> set b \<union> set c \<union> set d"
    and eq: "conversationKey a b = conversationKey c d"
  shows "{a, b} = {c, d}"
proof -
  have m1: "CHR ''_'' \<notin> set (min a b)"
    using free by (simp add: min_def)
  have m2: "CHR ''_'' \<notin> set (min c d)"
    using free by (simp add: min_def)
  have "min a b @ CHR ''_'' # max a b = min c d @ CHR ''_'' # max c d"
    using eq by (simp only: conversationKey_min_max)
  from sep_split_unique [OF this m1 m2]
  have "min a b = min c d" and "max a b = max c d"
    by (rule conjunct1, rule conjunct2)
  then show ?thesis
    by (rule min_max_pair_eq)
qed

text \<open>
  C1 (amended): the key of a pair equals the key of the swapped pair; it is the two ids
  sorted lexicographically and joined with the separator \<^verbatim>\<open>_\<close>; and two pairs of uids
  none of which contains the separator have the same key only if they are the same
  unordered pair.
\<close>

theorem C1_conversationKey:
  "conversationKey uidA uidB = conversationKey uidB uidA
   \<and> conversationKey uidA uidB = join ''_'' (sort [uidA, uidB])
   \<and> (CHR ''_'' \<notin> set uidA \<union> set uidB \<union> set uidC \<union> set uidD
        \<longrightarrow> conversationKey uidA uidB = conversationKey uidC uidD
        \<longrightarrow> {uidA, uidB} = {uidC, uidD})"
proof (intro conjI impI)
  show "conversationKey uidA uidB = conversationKey uidB uidA"
    by (simp only: conversationKey_min_max min.commute [of uidA] max.commute [of uidA])
  show "conversationKey uidA uidB = join ''_'' (sort [uidA, uidB])"
    by (simp only: conversationKey_def participants_of_def)
next
  assume "CHR ''_'' \<notin> set uidA \<union> set uidB \<union> set uidC \<union> set uidD"
    and "conversationKey uidA uidB = conversationKey uidC uidD"
  then show "{uidA, uidB} = {uidC, uidD}"
    by (rule conversationKey_injective)
qed

text \<open>
  C1 (as stated, refuted): two distinct unordered pairs of uids with the same key. The
  separator may occur inside a uid, so the pair (a, b_c) and the pair (a_b, c) both
  derive the key a_b_c.
\<close>

theorem C1_collision_counterexample:
  "conversationKey ''a'' ''b_c'' = conversationKey ''a_b'' ''c''
   \<and> {''a'', ''b_c''} \<noteq> {''a_b'', ''c''}"
  by (simp add: conversationKey_def participants_of_def doubleton_eq_iff)

theorem C1_conversationKey_witness:
  "conversationKey ''bob'' ''alice'' = conversationKey ''alice'' ''bob''
   \<and> conversationKey ''bob'' ''alice'' = ''alice_bob''
   \<and> conversationKey ''bob'' ''alice'' \<noteq> conversationKey ''alice'' ''carol''"
proof -
  note inst = C1_conversationKey [of "''bob''" "''alice''" "''alice''" "''carol''"]
  have free: "CHR ''_'' \<notin> set ''bob'' \<union> set ''alice'' \<union> set ''alice'' \<union> set ''carol''"
    by simp
  have ne: "{''bob'', ''alice''} \<noteq> {''alice'', ''carol''}"
    by (simp add: doubleton_eq_iff)
  have sym: "conversationKey ''bob'' ''alice'' = conversationKey ''alice'' ''bob''"
    using inst by (rule conjunct1)
  have "conversationKey ''bob'' ''alice'' = join ''_'' (sort [''bob'', ''alice''])"
    using inst by (rule conjunct1 [OF conjunct2])
  also have "\<dots> = ''alice_bob''"
    by simp
  finally have key: "conversationKey ''bob'' ''alice'' = ''alice_bob''" .
  have imp: "conversationKey ''bob'' ''alice'' = conversationKey ''alice'' ''carol''
        \<Longrightarrow> {''bob'', ''alice''} = {''alice'', ''carol''}"
    using inst [THEN conjunct2, THEN conjunct2, THEN mp, OF free] by (rule mp)
  have "conversationKey ''bob'' ''alice'' \<noteq> conversationKey ''alice'' ''carol''"
  proof
    assume "conversationKey ''bob'' ''alice'' = conversationKey ''alice'' ''carol''"
    then have "{''bob'', ''alice''} = {''alice'', ''carol''}" by (rule imp)
    with ne show False by (rule notE)
  qed
  with sym key show ?thesis by (intro conjI)
qed

subsection \<open>Selection\<close>

lemma run_effects_selection:
  "selectedUser (run_effects auth old new) = selectedUser new"
  "selectedGroup (run_effects auth old new) = selectedGroup new"
  "selectedAI (run_effects auth old new) = selectedAI new"
  by (simp_all add: run_effects_def Let_def messages_effect_def status_effect_def
      typing_effect_def split: option.split)

lemma selected_count_run_effects:
  "selected_count (run_effects auth old new) = selected_count new"
  by (simp add: selected_count_def run_effects_selection)

lemma selected_count_handlers:
  "selected_count (onUserSelect u s) = 1"
  "selected_count (onGroupSelect g s) = 1"
  "selected_count (handleNavigate ''ai'' s) = 1"
  by (simp_all add: selected_count_def onUserSelect_def onGroupSelect_def handleNavigate_def)

lemma selected_count_navigate:
  "selected_count s \<le> 1 \<Longrightarrow> selected_count (handleNavigate page s) \<le> 1"
  by (cases "selectedUser s"; cases "selectedGroup s"; cases "selectedAI s")
     (simp_all add: selected_count_def handleNavigate_def)

lemma callbacks_selection:
  "selectedUser (on_messages_snapshot st s) = selectedUser s"
  "selectedGroup (on_messages_snapshot st s) = selectedGroup s"
  "selectedAI (on_messages_snapshot st s) = selectedAI s"
  "selectedUser (on_status_value d s) = selectedUser s"
  "selectedGroup (on_status_value d s) = selectedGroup s"
  "selectedAI (on_status_value d s) = selectedAI s"
  "selectedUser (on_typing_value v s) = selectedUser s"
  "selectedGroup (on_typing_value v s) = selectedGroup s"
  "selectedAI (on_typing_value v s) = selectedAI s"
  by (simp_all add: on_messages_snapshot_def on_status_value_def on_typing_value_def
      split: option.splits)

lemma selected_count_callbacks:
  "selected_count (on_messages_snapshot st s) = selected_count s"
  "selected_count (on_status_value d s) = selected_count s"
  "selected_count (on_typing_value v s) = selected_count s"
  by (simp_all only: selected_count_def callbacks_selection)

lemma selected_count_step:
  assumes "selected_count s \<le> 1"
  shows "selected_count (step auth s ev) \<le> 1"
proof (cases ev)
  case (UserSelect u)
  then show ?thesis by (simp add: selected_count_run_effects selected_count_handlers)
next
  case (GroupSelect g)
  then show ?thesis by (simp add: selected_count_run_effects selected_count_handlers)
next
  case (Navigate page)
  have "selected_count (handleNavigate page s) \<le> 1"
    using assms by (rule selected_count_navigate)
  with Navigate show ?thesis by (simp add: selected_count_run_effects)
next
  case (MessagesSnapshot st)
  with assms show ?thesis by (simp add: selected_count_callbacks)
next
  case (StatusValue d)
  with assms show ?thesis by (simp add: selected_count_callbacks)
next
  case (TypingValue v)
  with assms show ?thesis by (simp add: selected_count_callbacks)
qed

lemma selected_count_run:
  "selected_count s \<le> 1 \<Longrightarrow> selected_count (run auth s evs) \<le> 1"
  unfolding run_def
proof (induction evs arbitrary: s)
  case Nil
  then show ?case by simp
next
  case (Cons ev evs)
  have "selected_count (step auth s ev) \<le> 1"
    using Cons.prems by (rule selected_count_step)
  then have "selected_count (foldl (step auth) (step auth s ev) evs) \<le> 1"
    by (rule Cons.IH)
  then show ?case by simp
qed

lemma selected_count_initial: "selected_count initial_state = 0"
  by (simp add: selected_count_def initial_state_def)

text \<open>
  C3: after selecting a user, selecting a group or navigating to the AI target (the handler
  followed by the effects it triggers), exactly one of \<^verbatim>\<open>selectedUser\<close>,
  \<^verbatim>\<open>selectedGroup\<close>, \<^verbatim>\<open>selectedAI\<close> is set; and in every state reached from the
  initial state by any sequence of events at most one of them is set.
\<close>

theorem C3_selection_exclusive:
  "selected_count (step auth s (UserSelect u)) = 1
   \<and> selected_count (step auth s (GroupSelect g)) = 1
   \<and> selected_count (step auth s (Navigate ''ai'')) = 1
   \<and> selected_count (run auth initial_state evs) \<le> 1"
proof (intro conjI)
  show "selected_count (step auth s (UserSelect u)) = 1"
    by (simp add: selected_count_run_effects selected_count_handlers)
  show "selected_count (step auth s (GroupSelect g)) = 1"
    by (simp add: selected_count_run_effects selected_count_handlers)
  show "selected_count (step auth s (Navigate ''ai'')) = 1"
    by (simp add: selected_count_run_effects selected_count_handlers)
  have "selected_count initial_state \<le> 1"
    by (simp add: selected_count_initial)
  then show "selected_count (run auth initial_state evs) \<le> 1"
    by (rule selected_count_run)
qed


theorem C3_selection_exclusive_witness:
  "selected_count (step alice (onUserSelect carol initial_state) (UserSelect bob)) = 1
   \<and> selected_count (step alice (onUserSelect carol initial_state) (GroupSelect team)) = 1
   \<and> selected_count (step alice (onUserSelect carol initial_state) (Navigate ''ai'')) = 1
   \<and> selected_count (run alice initial_state
         [UserSelect bob, Navigate ''ai'', GroupSelect team, Navigate ''chats'']) \<le> 1"
  by (rule C3_selection_exclusive)

subsection \<open>Presence and typing maps\<close>

lemma run_effects_maps:
  "userStatus (run_effects auth old new) = userStatus new"
  "typingStatus (run_effects auth old new) = typingStatus new"
  by (simp_all add: run_effects_def Let_def messages_effect_def status_effect_def
      typing_effect_def split: option.split)

lemma selection_step_maps:
  "userStatus (step auth s (UserSelect u)) = userStatus s"
  "typingStatus (step auth s (UserSelect u)) = typingStatus s"
  "userStatus (step auth s (GroupSelect g)) = userStatus s"
  "typingStatus (step auth s (GroupSelect g)) = typingStatus s"
  "userStatus (step auth s (Navigate page)) = userStatus s"
  "typingStatus (step auth s (Navigate page)) = typingStatus s"
  by (simp_all add: run_effects_maps onUserSelect_def onGroupSelect_def handleNavigate_def)

lemma callbacks_maps:
  "userStatus (on_messages_snapshot st s) = userStatus s"
  "typingStatus (on_messages_snapshot st s) = typingStatus s"
  "typingStatus (on_status_value d s) = typingStatus s"
  "userStatus (on_typing_value v s) = userStatus s"
  by (simp_all add: on_messages_snapshot_def on_status_value_def on_typing_value_def
      split: option.split)

lemma on_status_value_upsert:
  "userStatus (on_status_value d s) =
     (case statusListener s of None \<Rightarrow> userStatus s
      | Some uid \<Rightarrow> (userStatus s)(uid \<mapsto> presence_of d))"
  by (simp add: on_status_value_def split: option.split)

lemma on_typing_value_upsert:
  "typingStatus (on_typing_value v s) =
     (case typingListener s of None \<Rightarrow> typingStatus s
      | Some uid \<Rightarrow> (typingStatus s)(uid \<mapsto> v))"
  by (simp add: on_typing_value_def split: option.split)

lemma step_userStatus_upsert:
  "userStatus (step auth s ev) = userStatus s
   \<or> (\<exists>uid v. userStatus (step auth s ev) = (userStatus s)(uid \<mapsto> v))"
proof (cases ev)
  case (StatusValue d)
  show ?thesis
  proof (cases "statusListener s")
    case None
    with StatusValue show ?thesis by (simp add: on_status_value_upsert)
  next
    case (Some uid)
    with StatusValue have "userStatus (step auth s ev) = (userStatus s)(uid \<mapsto> presence_of d)"
      by (simp add: on_status_value_upsert)
    then show ?thesis by blast
  qed
qed (simp_all add: run_effects_maps callbacks_maps onUserSelect_def onGroupSelect_def
    handleNavigate_def)

lemma step_typingStatus_upsert:
  "typingStatus (step auth s ev) = typingStatus s
   \<or> (\<exists>uid v. typingStatus (step auth s ev) = (typingStatus s)(uid \<mapsto> v))"
proof (cases ev)
  case (TypingValue v)
  show ?thesis
  proof (cases "typingListener s")
    case None
    with TypingValue show ?thesis by (simp add: on_typing_value_upsert)
  next
    case (Some uid)
    with TypingValue have "typingStatus (step auth s ev) = (typingStatus s)(uid \<mapsto> v)"
      by (simp add: on_typing_value_upsert)
    then show ?thesis by blast
  qed
qed (simp_all add: run_effects_maps callbacks_maps onUserSelect_def onGroupSelect_def
    handleNavigate_def)

lemma step_dom_userStatus: "dom (userStatus s) \<subseteq> dom (userStatus (step auth s ev))"
  using step_userStatus_upsert [of auth s ev] by auto

lemma step_dom_typingStatus: "dom (typingStatus s) \<subseteq> dom (typingStatus (step auth s ev))"
  using step_typingStatus_upsert [of auth s ev] by auto

lemma run_dom_userStatus: "dom (userStatus s) \<subseteq> dom (userStatus (run auth s evs))"
  unfolding run_def
proof (induction evs arbitrary: s)
  case Nil
  show ?case by simp
next
  case (Cons ev evs)
  have "dom (userStatus s) \<subseteq> dom (userStatus (step auth s ev))"
    by (rule step_dom_userStatus)
  also have "\<dots> \<subseteq> dom (userStatus (foldl (step auth) (step auth s ev) evs))"
    by (rule Cons.IH)
  finally show ?case by simp
qed

lemma run_dom_typingStatus: "dom (typingStatus s) \<subseteq> dom (typingStatus (run auth s evs))"
  unfolding run_def
proof (induction evs arbitrary: s)
  case Nil
  show ?case by simp
next
  case (Cons ev evs)
  have "dom (typingStatus s) \<subseteq> dom (typingStatus (step auth s ev))"
    by (rule step_dom_typingStatus)
  also have "\<dots> \<subseteq> dom (typingStatus (foldl (step auth) (step auth s ev) evs))"
    by (rule Cons.IH)
  finally show ?case by simp
qed

lemma listeners_ok_run_effects:
  assumes "listeners_ok old"
    and "statusListener new = statusListener old" and "typingListener new = typingListener old"
  shows "listeners_ok (run_effects auth old new)"
proof (cases "selectedUser new = selectedUser old")
  case True
  then have "listened_uid new = listened_uid old"
    by (simp add: listened_uid_def)
  with True assms show ?thesis
    by (simp add: listeners_ok_def run_effects_def Let_def messages_effect_def listened_uid_def
        split: option.split)
next
  case False
  then show ?thesis
    by (simp add: listeners_ok_def run_effects_def Let_def messages_effect_def listened_uid_def
        status_effect_def typing_effect_def split: option.split)
qed

lemma listeners_ok_step: "listeners_ok s \<Longrightarrow> listeners_ok (step auth s ev)"
proof (cases ev)
  case (UserSelect u)
  assume "listeners_ok s"
  then have "listeners_ok (run_effects auth s (onUserSelect u s))"
    by (rule listeners_ok_run_effects) (simp_all add: onUserSelect_def)
  with UserSelect show ?thesis by simp
next
  case (GroupSelect g)
  assume "listeners_ok s"
  then have "listeners_ok (run_effects auth s (onGroupSelect g s))"
    by (rule listeners_ok_run_effects) (simp_all add: onGroupSelect_def)
  with GroupSelect show ?thesis by simp
next
  case (Navigate page)
  assume "listeners_ok s"
  then have "listeners_ok (run_effects auth s (handleNavigate page s))"
    by (rule listeners_ok_run_effects) (simp_all add: handleNavigate_def)
  with Navigate show ?thesis by simp
next
  case (MessagesSnapshot st)
  assume "listeners_ok s"
  with MessagesSnapshot show ?thesis
    by (simp add: listeners_ok_def on_messages_snapshot_def listened_uid_def split: option.split)
next
  case (StatusValue d)
  assume "listeners_ok s"
  with StatusValue show ?thesis
    by (simp add: listeners_ok_def on_status_value_def listened_uid_def split: option.split)
next
  case (TypingValue v)
  assume "listeners_ok s"
  with TypingValue show ?thesis
    by (simp add: listeners_ok_def on_typing_value_def listened_uid_def split: option.split)
qed

lemma listeners_ok_run: "listeners_ok s \<Longrightarrow> listeners_ok (run auth s evs)"
  unfolding run_def
  by (induction evs arbitrary: s) (simp_all add: listeners_ok_step)

lemma listeners_ok_initial: "listeners_ok initial_state"
  by (simp add: listeners_ok_def initial_state_def listened_uid_def)

lemma listeners_after_select:
  assumes "listeners_ok s" and "user_uid u \<noteq> []"
  shows "statusListener (step auth s (UserSelect u)) = Some (user_uid u)"
    and "typingListener (step auth s (UserSelect u)) = Some (user_uid u)"
proof -
  have ok: "listeners_ok (step auth s (UserSelect u))"
    using assms(1) by (rule listeners_ok_step)
  have "selectedUser (step auth s (UserSelect u)) = Some u"
    by (simp add: run_effects_selection onUserSelect_def)
  then have "listened_uid (step auth s (UserSelect u)) = Some (user_uid u)"
    using assms(2) by (simp add: listened_uid_def)
  with ok show "statusListener (step auth s (UserSelect u)) = Some (user_uid u)"
    and "typingListener (step auth s (UserSelect u)) = Some (user_uid u)"
    by (simp_all add: listeners_ok_def)
qed


text \<open>
  C10: every event leaves the presence map and the typing map unchanged or writes one uid's
  entry into the existing map, so the recorded uids only grow along any run; selecting a
  user, selecting a group and navigating leave both maps as they are, so switching away from
  a user or deselecting it removes nothing; and after a newly selected user's listener
  delivers a value, the map is the previous map with that uid's entry written.
\<close>

theorem C10_presence_typing_maps:
  "(userStatus (step auth s ev) = userStatus s
      \<or> (\<exists>uid v. userStatus (step auth s ev) = (userStatus s)(uid \<mapsto> v)))
   \<and> (typingStatus (step auth s ev) = typingStatus s
      \<or> (\<exists>uid v. typingStatus (step auth s ev) = (typingStatus s)(uid \<mapsto> v)))
   \<and> dom (userStatus s) \<subseteq> dom (userStatus (run auth s evs))
   \<and> dom (typingStatus s) \<subseteq> dom (typingStatus (run auth s evs))
   \<and> userStatus (step auth s (UserSelect u)) = userStatus s
   \<and> typingStatus (step auth s (UserSelect u)) = typingStatus s
   \<and> userStatus (step auth s (GroupSelect g)) = userStatus s
   \<and> typingStatus (step auth s (GroupSelect g)) = typingStatus s
   \<and> userStatus (step auth s (Navigate page)) = userStatus s
   \<and> typingStatus (step auth s (Navigate page)) = typingStatus s
   \<and> (user_uid u \<noteq> [] \<longrightarrow>
        userStatus (run auth (run auth initial_state evs) [UserSelect u, StatusValue d])
          = (userStatus (run auth initial_state evs))(user_uid u \<mapsto> presence_of d)
        \<and> typingStatus (run auth (run auth initial_state evs) [UserSelect u, TypingValue v])
          = (typingStatus (run auth initial_state evs))(user_uid u \<mapsto> v))"
proof (intro conjI impI)
  assume uid: "user_uid u \<noteq> []"
  let ?s = "run auth initial_state evs"
  have ok: "listeners_ok ?s"
    using listeners_ok_initial by (rule listeners_ok_run)
  have sl: "statusListener (step auth ?s (UserSelect u)) = Some (user_uid u)"
    using ok uid by (rule listeners_after_select)
  have tl: "typingListener (step auth ?s (UserSelect u)) = Some (user_uid u)"
    using ok uid by (rule listeners_after_select)
  show "userStatus (run auth ?s [UserSelect u, StatusValue d])
          = (userStatus ?s)(user_uid u \<mapsto> presence_of d)"
    unfolding run_def [of auth ?s]
    using sl by (simp add: on_status_value_upsert selection_step_maps del: step.simps(1))
  show "typingStatus (run auth ?s [UserSelect u, TypingValue v])
          = (typingStatus ?s)(user_uid u \<mapsto> v)"
    unfolding run_def [of auth ?s]
    using tl by (simp add: on_typing_value_upsert selection_step_maps del: step.simps(1))
qed (rule step_userStatus_upsert step_typingStatus_upsert run_dom_userStatus
       run_dom_typingStatus selection_step_maps)+


theorem C10_presence_typing_maps_witness:
  "user_uid bob \<noteq> []
   \<and> userStatus (run alice (run alice initial_state [UserSelect carol, StatusValue None])
         [UserSelect bob, StatusValue (Some \<lparr>pd_status = Some ''online'', pd_lastChanged = Some 7\<rparr>)])
       = (userStatus (run alice initial_state [UserSelect carol, StatusValue None]))
           (user_uid bob \<mapsto> presence_of (Some \<lparr>pd_status = Some ''online'', pd_lastChanged = Some 7\<rparr>))
   \<and> typingStatus (run alice (run alice initial_state [UserSelect carol, StatusValue None])
         [UserSelect bob, TypingValue (JBool True)])
       = (typingStatus (run alice initial_state [UserSelect carol, StatusValue None]))
           (user_uid bob \<mapsto> JBool True)"
proof -
  have uid: "user_uid bob \<noteq> []"
    by (simp add: bob_def)
  from C10_presence_typing_maps [of alice initial_state "Navigate ''ai''"
      "[UserSelect carol, StatusValue None]" bob team "''ai''"
      "Some \<lparr>pd_status = Some ''online'', pd_lastChanged = Some 7\<rparr>" "JBool True"]
  have "user_uid bob \<noteq> [] \<longrightarrow>
      userStatus (run alice (run alice initial_state [UserSelect carol, StatusValue None])
         [UserSelect bob, StatusValue (Some \<lparr>pd_status = Some ''online'', pd_lastChanged = Some 7\<rparr>)])
       = (userStatus (run alice initial_state [UserSelect carol, StatusValue None]))
           (user_uid bob \<mapsto> presence_of (Some \<lparr>pd_status = Some ''online'', pd_lastChanged = Some 7\<rparr>))
      \<and> typingStatus (run alice (run alice initial_state [UserSelect carol, StatusValue None])
         [UserSelect bob, TypingValue (JBool True)])
       = (typingStatus (run alice initial_state [UserSelect carol, StatusValue None]))
           (user_uid bob \<mapsto> JBool True)"
    by (elim conjE)
  then show ?thesis
    using uid by (intro conjI) (rule uid, (drule mp, rule uid, erule conjunct1), (drule mp, rule uid, erule conjunct2))
qed

subsection \<open>The messages window\<close>

lemma busy_matching: "matching busy_store team_query = map (group_message ''team'') [1..<52]"
  by (simp add: matching_def busy_store_def team_query_def group_message_def filter_map o_def
      del: upt_rec_numeral)

lemma busy_timestamps: "map timestamp (map (group_message ''team'') ns) = ns"
  by (simp add: group_message_def o_def)

lemma busy_keys: "map order_key (map (group_message ''team'') ns) = map (\<lambda>t. (t, t)) ns"
  by (simp add: group_message_def order_key_def o_def)

lemma busy_sorted: "sort_key order_key (map (group_message ''team'') [1..<52])
    = map (group_message ''team'') [1..<52]"
proof (rule sort_key_id_if_sorted)
  have "sorted (map (\<lambda>t::nat. (t, t)) [1..<52])"
    by (rule sorted_map_mono [OF sorted_upt]) (simp add: mono_on_def)
  then show "sorted (map order_key (map (group_message ''team'') [1..<52]))"
    by (simp only: busy_keys)
qed

lemma upt_facts:
  "take 50 [1..<52] = [1..<(51::nat)]"
  "drop (51 - 50) [1..<52] = [2..<(52::nat)]"
  "[1..<51] \<noteq> [2..<(52::nat)]"
  "length [1..<(52::nat)] = 51"
  by code_simp+

lemma busy_query: "map timestamp (run_query busy_store team_query) = [1..<51]"
proof -
  have "q_limit team_query = 50"
    by (simp add: team_query_def)
  then have "run_query busy_store team_query = take 50 (map (group_message ''team'') [1..<52])"
    by (simp only: run_query_def busy_matching busy_sorted)
  then have "map timestamp (run_query busy_store team_query)
      = take 50 (map timestamp (map (group_message ''team'') [1..<52]))"
    by (simp only: take_map)
  then show ?thesis
    by (simp only: busy_timestamps upt_facts)
qed

lemma busy_recent:
  "map timestamp (most_recent 50 (matching busy_store team_query)) = [2..<52]"
proof -
  have "length (map (group_message ''team'') [1..<52]) = 51"
    by (simp only: length_map upt_facts)
  then have "most_recent 50 (matching busy_store team_query)
      = drop (51 - 50) (map (group_message ''team'') [1..<52])"
    by (simp only: most_recent_def busy_matching busy_sorted)
  then have "map timestamp (most_recent 50 (matching busy_store team_query))
      = drop (51 - 50) (map timestamp (map (group_message ''team'') [1..<52]))"
    by (simp only: drop_map)
  then show ?thesis
    by (simp only: busy_timestamps upt_facts)
qed

lemma busy_session:
  "messages (run alice initial_state [GroupSelect team, MessagesSnapshot busy_store])
     = run_query busy_store team_query"
  by (simp add: run_def run_effects_def Let_def onGroupSelect_def initial_state_def
      messages_effect_def messagesQuery_def on_messages_snapshot_def team_def team_query_def)

text \<open>
  C2 (the code at the failing input): alice selects a group that holds 51 messages, of
  timestamps 1 to 51, and the listener delivers its snapshot. The page holds the messages
  of timestamps 1 to 50, in ascending order; the 50 most recent are those of timestamps 2
  to 51, so the newest message is not shown.
\<close>

theorem C2_window_at_51_messages:
  "map timestamp (messages (run alice initial_state [GroupSelect team, MessagesSnapshot busy_store]))
     = [1..<51]
   \<and> map timestamp (most_recent 50 (matching busy_store team_query)) = [2..<52]
   \<and> messages (run alice initial_state [GroupSelect team, MessagesSnapshot busy_store])
     \<noteq> most_recent 50 (matching busy_store team_query)"
proof (intro conjI)
  show a: "map timestamp (messages (run alice initial_state [GroupSelect team, MessagesSnapshot busy_store]))
     = [1..<51]"
    by (simp only: busy_session busy_query)
  show b: "map timestamp (most_recent 50 (matching busy_store team_query)) = [2..<52]"
    by (rule busy_recent)
  show "messages (run alice initial_state [GroupSelect team, MessagesSnapshot busy_store])
     \<noteq> most_recent 50 (matching busy_store team_query)"
  proof
    assume "messages (run alice initial_state [GroupSelect team, MessagesSnapshot busy_store])
      = most_recent 50 (matching busy_store team_query)"
    then have "map timestamp (messages (run alice initial_state
          [GroupSelect team, MessagesSnapshot busy_store]))
        = map timestamp (most_recent 50 (matching busy_store team_query))"
      by (rule arg_cong)
    with a have "[1..<51] = map timestamp (most_recent 50 (matching busy_store team_query))"
      by (rule subst)
    with b have "[1..<51] = [2..<(52::nat)]"
      by (rule subst)
    with upt_facts(3) show False by (rule notE)
  qed
qed

subsection \<open>Switching the target\<close>

lemma step_select_user:
  assumes "selectedUser s \<noteq> Some u"
  shows "step auth s (UserSelect u) =
     typing_effect (status_effect (messages_effect auth (onUserSelect u s)))"
  using assms by (simp add: run_effects_def Let_def onUserSelect_def)

lemma step_select_group:
  assumes "selectedGroup s \<noteq> Some g"
  shows "messages (step auth s (GroupSelect g)) = messages (messages_effect auth (onGroupSelect g s))"
    and "messagesListener (step auth s (GroupSelect g))
      = messagesListener (messages_effect auth (onGroupSelect g s))"
  using assms
  by (simp_all add: run_effects_def Let_def onGroupSelect_def typing_effect_def status_effect_def)

lemma step_navigate_changed:
  assumes "selectedAI (handleNavigate page s) \<noteq> selectedAI s"
  shows "messages (step auth s (Navigate page))
      = messages (messages_effect auth (handleNavigate page s))"
    and "messagesListener (step auth s (Navigate page))
      = messagesListener (messages_effect auth (handleNavigate page s))"
  using assms
  by (simp_all add: run_effects_def Let_def typing_effect_def status_effect_def)

lemma snapshot_of_listener:
  "messagesListener s = Some q \<Longrightarrow> messages (step auth s (MessagesSnapshot st)) = run_query st q"
  by (simp add: on_messages_snapshot_def)

text \<open>
  C4 (amended): when the selection changes to a different user, to a different group or to
  the AI target, the messages listener is replaced by a listener on the new target's query
  and the messages state is left as it was, until the first snapshot of the new listener
  replaces it by the documents of the new query; the messages state is cleared at once only
  when the selection becomes empty.
\<close>

theorem C4_target_switch:
  "(selectedUser s \<noteq> Some u \<longrightarrow>
      messages (step auth s (UserSelect u)) = messages s
      \<and> messagesListener (step auth s (UserSelect u))
          = Some \<lparr>q_collection = Messages,
                  q_where = ConversationIdEq (conversationKey (auth_uid auth) (user_uid u)),
                  q_limit = 50\<rparr>
      \<and> messages (step auth (step auth s (UserSelect u)) (MessagesSnapshot st))
          = run_query st \<lparr>q_collection = Messages,
                  q_where = ConversationIdEq (conversationKey (auth_uid auth) (user_uid u)),
                  q_limit = 50\<rparr>)
   \<and> (selectedGroup s \<noteq> Some g \<longrightarrow>
      messages (step auth s (GroupSelect g)) = messages s
      \<and> messagesListener (step auth s (GroupSelect g))
          = Some \<lparr>q_collection = Messages, q_where = GroupIdEq (group_id g), q_limit = 50\<rparr>
      \<and> messages (step auth (step auth s (GroupSelect g)) (MessagesSnapshot st))
          = run_query st \<lparr>q_collection = Messages, q_where = GroupIdEq (group_id g),
                           q_limit = 50\<rparr>)
   \<and> (\<not> selectedAI s \<longrightarrow>
      messages (step auth s (Navigate ''ai'')) = messages s
      \<and> messagesListener (step auth s (Navigate ''ai''))
          = Some \<lparr>q_collection = AiMessages, q_where = UserIdEq (auth_uid auth), q_limit = 50\<rparr>
      \<and> messages (step auth (step auth s (Navigate ''ai'')) (MessagesSnapshot st))
          = run_query st \<lparr>q_collection = AiMessages, q_where = UserIdEq (auth_uid auth),
                           q_limit = 50\<rparr>)
   \<and> (selectedAI s \<and> selectedUser s = None \<and> selectedGroup s = None \<and> page \<noteq> ''ai'' \<longrightarrow>
      messages (step auth s (Navigate page)) = []
      \<and> messagesListener (step auth s (Navigate page)) = None)"
proof (intro conjI impI)
  assume a: "selectedUser s \<noteq> Some u"
  let ?q = "\<lparr>q_collection = Messages,
      q_where = ConversationIdEq (conversationKey (auth_uid auth) (user_uid u)), q_limit = 50\<rparr>"
  show "messages (step auth s (UserSelect u)) = messages s"
    unfolding step_select_user [OF a]
    by (simp add: typing_effect_def status_effect_def messages_effect_def messagesQuery_def
        onUserSelect_def)
  show l: "messagesListener (step auth s (UserSelect u)) = Some ?q"
    unfolding step_select_user [OF a]
    by (simp add: typing_effect_def status_effect_def messages_effect_def messagesQuery_def
        onUserSelect_def)
  show "messages (step auth (step auth s (UserSelect u)) (MessagesSnapshot st)) = run_query st ?q"
    using l by (rule snapshot_of_listener)
next
  assume a: "selectedGroup s \<noteq> Some g"
  let ?q = "\<lparr>q_collection = Messages, q_where = GroupIdEq (group_id g), q_limit = 50\<rparr>"
  show "messages (step auth s (GroupSelect g)) = messages s"
    unfolding step_select_group [OF a]
    by (simp add: messages_effect_def messagesQuery_def onGroupSelect_def)
  show l: "messagesListener (step auth s (GroupSelect g)) = Some ?q"
    unfolding step_select_group [OF a]
    by (simp add: messages_effect_def messagesQuery_def onGroupSelect_def)
  show "messages (step auth (step auth s (GroupSelect g)) (MessagesSnapshot st)) = run_query st ?q"
    using l by (rule snapshot_of_listener)
next
  assume a: "\<not> selectedAI s"
  let ?q = "\<lparr>q_collection = AiMessages, q_where = UserIdEq (auth_uid auth), q_limit = 50\<rparr>"
  have ch: "selectedAI (handleNavigate ''ai'' s) \<noteq> selectedAI s"
    using a by (simp add: handleNavigate_def)
  show "messages (step auth s (Navigate ''ai'')) = messages s"
    unfolding step_navigate_changed [OF ch]
    by (simp add: messages_effect_def messagesQuery_def handleNavigate_def)
  show l: "messagesListener (step auth s (Navigate ''ai'')) = Some ?q"
    unfolding step_navigate_changed [OF ch]
    by (simp add: messages_effect_def messagesQuery_def handleNavigate_def)
  show "messages (step auth (step auth s (Navigate ''ai'')) (MessagesSnapshot st)) = run_query st ?q"
    using l by (rule snapshot_of_listener)
next
  assume a: "selectedAI s \<and> selectedUser s = None \<and> selectedGroup s = None \<and> page \<noteq> ''ai''"
  then have ch: "selectedAI (handleNavigate page s) \<noteq> selectedAI s"
    by (simp add: handleNavigate_def)
  show "messages (step auth s (Navigate page)) = []"
    unfolding step_navigate_changed [OF ch]
    using a by (simp add: messages_effect_def messagesQuery_def handleNavigate_def)
  show "messagesListener (step auth s (Navigate page)) = None"
    unfolding step_navigate_changed [OF ch]
    using a by (simp add: messages_effect_def messagesQuery_def handleNavigate_def)
qed


theorem C4_target_switch_witness:
  "messages (step alice (onUserSelect carol initial_state) (UserSelect bob))
     = messages (onUserSelect carol initial_state)
   \<and> messages (step alice (onUserSelect carol initial_state) (GroupSelect team))
     = messages (onUserSelect carol initial_state)
   \<and> messages (step alice (onUserSelect carol initial_state) (Navigate ''ai''))
     = messages (onUserSelect carol initial_state)
   \<and> messages (step alice (handleNavigate ''ai'' initial_state) (Navigate ''chats'')) = []"
proof -
  let ?s1 = "onUserSelect carol initial_state"
  let ?s2 = "handleNavigate ''ai'' initial_state"
  note t1 = C4_target_switch [of ?s1 bob alice dm_store team "''chats''"]
  note t2 = C4_target_switch [of ?s2 bob alice dm_store team "''chats''"]
  have h1: "selectedUser ?s1 \<noteq> Some bob"
    by (simp add: onUserSelect_def bob_def carol_def)
  have h2: "selectedGroup ?s1 \<noteq> Some team"
    by (simp add: onUserSelect_def)
  have h3: "\<not> selectedAI ?s1"
    by (simp add: onUserSelect_def)
  have h4: "selectedAI ?s2 \<and> selectedUser ?s2 = None \<and> selectedGroup ?s2 = None
      \<and> ''chats'' \<noteq> ''ai''"
    by (simp add: handleNavigate_def)
  have "messages (step alice ?s1 (UserSelect bob)) = messages ?s1"
    using t1 [THEN conjunct1, THEN mp, OF h1] by (rule conjunct1)
  moreover have "messages (step alice ?s1 (GroupSelect team)) = messages ?s1"
    using t1 [THEN conjunct2, THEN conjunct1, THEN mp, OF h2] by (rule conjunct1)
  moreover have "messages (step alice ?s1 (Navigate ''ai'')) = messages ?s1"
    using t1 [THEN conjunct2, THEN conjunct2, THEN conjunct1, THEN mp, OF h3] by (rule conjunct1)
  moreover have "messages (step alice ?s2 (Navigate ''chats'')) = []"
    using t2 [THEN conjunct2, THEN conjunct2, THEN conjunct2, THEN mp, OF h4] by (rule conjunct1)
  ultimately show ?thesis by (intro conjI)
qed

lemma stale_after_snapshot:
  "step alice (step alice initial_state (UserSelect bob)) (MessagesSnapshot dm_store)
     = (step alice initial_state (UserSelect bob))\<lparr>messages := [direct_message]\<rparr>"
  by (simp add: run_effects_def Let_def onUserSelect_def initial_state_def messages_effect_def
      messagesQuery_def typing_effect_def status_effect_def on_messages_snapshot_def
      run_query_def matching_def dm_store_def direct_message_def empty_doc_def
      conversationKey_def participants_of_def alice_def bob_def)

text \<open>
  C4 (as stated, refuted): alice opens the conversation with bob, receives its one message,
  and selects carol. The listener is now on the conversation with carol, and the messages
  state still holds the message of the conversation with bob.
\<close>

theorem C4_stale_messages_counterexample:
  "selectedUser (run alice initial_state
       [UserSelect bob, MessagesSnapshot dm_store, UserSelect carol]) = Some carol
   \<and> messagesListener (run alice initial_state
       [UserSelect bob, MessagesSnapshot dm_store, UserSelect carol])
     = Some \<lparr>q_collection = Messages, q_where = ConversationIdEq ''alice_carol'', q_limit = 50\<rparr>
   \<and> map conversationId (messages (run alice initial_state
       [UserSelect bob, MessagesSnapshot dm_store, UserSelect carol])) = [Some ''alice_bob'']
   \<and> messages (run alice initial_state
       [UserSelect bob, MessagesSnapshot dm_store, UserSelect carol]) \<noteq> []"
  unfolding run_def foldl_Cons foldl_Nil stale_after_snapshot
  by (simp add: run_effects_def Let_def onUserSelect_def initial_state_def messages_effect_def
      messagesQuery_def typing_effect_def status_effect_def direct_message_def empty_doc_def
      conversationKey_def participants_of_def alice_def bob_def carol_def)

subsection \<open>Sending\<close>

lemma addDoc_accepted:
  "acceptsMessage be c p \<Longrightarrow>
     addDoc be c p st = Inr (insert_doc c (p\<lparr>msg_id := nextId st, timestamp := clock st\<rparr>)
                              (st\<lparr>clock := clock st + 1, nextId := nextId st + 1\<rparr>))"
  by (simp add: addDoc_def)

lemma addDoc_rejected: "\<not> acceptsMessage be c p \<Longrightarrow> addDoc be c p st = Inl WriteFailure"
  by (simp add: addDoc_def)

lemma addDoc_ai_coll:
  "addDoc be AiMessages p st = Inr st' \<Longrightarrow>
     aiMessagesColl st' = aiMessagesColl st @ [p\<lparr>msg_id := nextId st, timestamp := clock st\<rparr>]
     \<and> messagesColl st' = messagesColl st \<and> conversations st' = conversations st"
  by (auto simp: addDoc_def split: if_splits)

lemma payload_flags:
  "isAI (userMessage auth txt fd) = False"
  "isAI (aiMessage auth t) = True" "isError (aiMessage auth t) = False"
  "msg_text (aiMessage auth t) = t"
  "isAI (errorMessage auth) = True" "isError (errorMessage auth) = True"
  "msg_text (errorMessage auth) = apology"
  by (simp_all add: userMessage_def aiMessage_def errorMessage_def empty_doc_def)

text \<open>The AI branch, once the upload and the append of the user's message have succeeded.\<close>

lemma handleSubmit_ai:
  assumes "\<not> send_guard (ui w)" and "selectedAI (ui w)"
    and "upload_step be (selectedFile (ui w)) = Inr fd"
    and "addDoc be AiMessages (userMessage auth (newMessage (ui w)) fd) (db w) = Inr st1"
  shows "handleSubmit be auth w =
     (case ai_respond be auth (newMessage (ui w)) (selectedFile (ui w)) fd st1 of
        (calls, Inl e) \<Rightarrow>
          send_failed (w\<lparr>db := st1, genCalls := genCalls w @ calls,
                         ui := (ui w)\<lparr>aiLoading := True\<rparr>\<rparr>)
      | (calls, Inr st2) \<Rightarrow>
          send_done (w\<lparr>db := st2, genCalls := genCalls w @ calls,
                       ui := (ui w)\<lparr>aiLoading := False\<rparr>\<rparr>))"
  using assms by (simp add: handleSubmit_def Let_def)

lemma ai_respond_accepted:
  assumes "assistant_reply be prompt sf fd = (calls, r)"
    and "acceptsMessage be AiMessages (case r of Inr t \<Rightarrow> aiMessage auth t | Inl e \<Rightarrow> errorMessage auth)"
  shows "ai_respond be auth prompt sf fd st =
     (calls, addDoc be AiMessages
               (case r of Inr t \<Rightarrow> aiMessage auth t | Inl e \<Rightarrow> errorMessage auth) st)"
  using assms by (cases r) (simp_all add: ai_respond_def addDoc_def)


lemma assistant_payload_flags:
  "isAI (case r of Inr t \<Rightarrow> aiMessage auth t | Inl e \<Rightarrow> errorMessage auth) = True"
  "isError (case r of Inr t \<Rightarrow> aiMessage auth t | Inl e \<Rightarrow> errorMessage auth) = isl r"
  "msg_text (case r of Inr t \<Rightarrow> aiMessage auth t | Inl e \<Rightarrow> errorMessage auth)
     = (case r of Inr t \<Rightarrow> t | Inl e \<Rightarrow> apology)"
  by (cases r; simp add: payload_flags)+

lemma ai_turn_accepted:
  assumes turn: "\<not> send_guard (ui w)" "selectedAI (ui w)"
    and up: "upload_step be (selectedFile (ui w)) = Inr fd"
    and user: "acceptsMessage be AiMessages (userMessage auth (newMessage (ui w)) fd)"
    and reply: "assistant_reply be (newMessage (ui w)) (selectedFile (ui w)) fd = (calls, r)"
    and store: "acceptsMessage be AiMessages
                  (case r of Inr t \<Rightarrow> aiMessage auth t | Inl e \<Rightarrow> errorMessage auth)"
  shows "\<exists>i j k l. aiMessagesColl (db (handleSubmit be auth w))
           = aiMessagesColl (db w)
             @ [(userMessage auth (newMessage (ui w)) fd)\<lparr>msg_id := i, timestamp := j\<rparr>,
                (case r of Inr t \<Rightarrow> aiMessage auth t | Inl e \<Rightarrow> errorMessage auth)
                  \<lparr>msg_id := k, timestamp := l\<rparr>]"
    and "alerts (handleSubmit be auth w) = alerts w"
    and "genCalls (handleSubmit be auth w) = genCalls w @ calls"
    and "draft (handleSubmit be auth w) = ([], None)"
proof -
  let ?um = "userMessage auth (newMessage (ui w)) fd"
  let ?am = "case r of Inr t \<Rightarrow> aiMessage auth t | Inl e \<Rightarrow> errorMessage auth"
  obtain st1 where st1: "addDoc be AiMessages ?um (db w) = Inr st1"
    using user by (simp add: addDoc_accepted)
  obtain st2 where st2: "addDoc be AiMessages ?am st1 = Inr st2"
    using store by (simp add: addDoc_accepted)
  have resp: "ai_respond be auth (newMessage (ui w)) (selectedFile (ui w)) fd st1 = (calls, Inr st2)"
    using ai_respond_accepted [OF reply store, of st1] st2 by simp
  have hs: "handleSubmit be auth w =
      send_done (w\<lparr>db := st2, genCalls := genCalls w @ calls,
                   ui := (ui w)\<lparr>aiLoading := False\<rparr>\<rparr>)"
    using handleSubmit_ai [OF turn up st1] resp by simp
  have c1: "aiMessagesColl st1 = aiMessagesColl (db w)
      @ [?um\<lparr>msg_id := nextId (db w), timestamp := clock (db w)\<rparr>]"
    using addDoc_ai_coll [OF st1] by (rule conjunct1)
  have c2: "aiMessagesColl st2 = aiMessagesColl st1
      @ [?am\<lparr>msg_id := nextId st1, timestamp := clock st1\<rparr>]"
    using addDoc_ai_coll [OF st2] by (rule conjunct1)
  have "aiMessagesColl (db (handleSubmit be auth w)) = aiMessagesColl (db w)
      @ [?um\<lparr>msg_id := nextId (db w), timestamp := clock (db w)\<rparr>,
         ?am\<lparr>msg_id := nextId st1, timestamp := clock st1\<rparr>]"
    by (simp add: hs send_done_def c1 c2)
  then show "\<exists>i j k l. aiMessagesColl (db (handleSubmit be auth w))
           = aiMessagesColl (db w) @ [?um\<lparr>msg_id := i, timestamp := j\<rparr>,
                                     ?am\<lparr>msg_id := k, timestamp := l\<rparr>]"
    by blast
  show "alerts (handleSubmit be auth w) = alerts w"
    by (simp add: hs send_done_def)
  show "genCalls (handleSubmit be auth w) = genCalls w @ calls"
    by (simp add: hs send_done_def)
  show "draft (handleSubmit be auth w) = ([], None)"
    by (simp add: hs send_done_def draft_def)
qed

text \<open>
  C5 (amended): for every AI user turn (the guard passes, the AI target is selected, the
  upload if any succeeds and the user's message is appended), whether text-only, with an image,
  with another file, or with a generation step that throws, if the store accepts the
  assistant message of the turn (the reply or acknowledgment, or the apology once the
  generation step has failed) then exactly one assistant-tagged message is added to the AI
  stream, its \<^verbatim>\<open>isError\<close> flag is set if and only if the generation step failed, and no
  failure is surfaced.
\<close>

theorem C5_ai_turn:
  assumes "\<not> send_guard (ui w)" and "selectedAI (ui w)"
    and "upload_step be (selectedFile (ui w)) = Inr fd"
    and "acceptsMessage be AiMessages (userMessage auth (newMessage (ui w)) fd)"
    and "assistant_reply be (newMessage (ui w)) (selectedFile (ui w)) fd = (calls, r)"
    and "acceptsMessage be AiMessages
           (case r of Inr t \<Rightarrow> aiMessage auth t | Inl e \<Rightarrow> errorMessage auth)"
  shows "map isError (new_ai_docs w (handleSubmit be auth w)) = [isl r]
    \<and> map msg_text (new_ai_docs w (handleSubmit be auth w))
        = [case r of Inr t \<Rightarrow> t | Inl e \<Rightarrow> apology]
    \<and> alerts (handleSubmit be auth w) = alerts w"
proof -
  let ?um = "userMessage auth (newMessage (ui w)) fd"
  let ?am = "case r of Inr t \<Rightarrow> aiMessage auth t | Inl e \<Rightarrow> errorMessage auth"
  obtain i j k l where coll: "aiMessagesColl (db (handleSubmit be auth w))
      = aiMessagesColl (db w) @ [?um\<lparr>msg_id := i, timestamp := j\<rparr>,
                                ?am\<lparr>msg_id := k, timestamp := l\<rparr>]"
    using ai_turn_accepted(1) [OF assms] by blast
  have new: "new_ai_docs w (handleSubmit be auth w) = [?am\<lparr>msg_id := k, timestamp := l\<rparr>]"
    by (simp add: new_ai_docs_def coll payload_flags assistant_payload_flags)
  have "map isError (new_ai_docs w (handleSubmit be auth w)) = [isl r]"
    by (simp add: new assistant_payload_flags)
  moreover have "map msg_text (new_ai_docs w (handleSubmit be auth w))
      = [case r of Inr t \<Rightarrow> t | Inl e \<Rightarrow> apology]"
    by (simp add: new assistant_payload_flags)
  moreover have "alerts (handleSubmit be auth w) = alerts w"
    using assms by (rule ai_turn_accepted(2))
  ultimately show ?thesis by (intro conjI)
qed


lemmas sample_defs =
  ai_world_def pdf_world_def bob_world_def empty_store_def initial_state_def report_pdf_def
  backend_ok_def backend_throws_def backend_users_only_def backend_no_plain_reply_def
  accept_all_def users_only_def no_plain_reply_def any_id_def upload_ok_def no_fetch_def
  gen_hello_def gen_fails_def alice_def bob_def reject_all_def no_upload_def
  backend_offline_def file_world_def

lemmas send_defs =
  handleSubmit_def Let_def send_guard_def space1_def upload_step_def fileData_of_def
  addDoc_def userMessage_def aiMessage_def errorMessage_def messageData_def empty_doc_def
  ai_respond_def assistant_reply_def is_image_def send_failed_def send_done_def
  new_ai_docs_def draft_def

lemma ai_world_sample:
  "\<not> send_guard (ui ai_world)" "selectedAI (ui ai_world)"
  "upload_step be (selectedFile (ui ai_world)) = Inr None"
  "newMessage (ui ai_world) = ''hi''" "selectedFile (ui ai_world) = None"
  "alerts ai_world = []"
  by (simp_all add: sample_defs send_guard_def space1_def upload_step_def)

theorem C5_ai_turn_witness:
  "map isError (new_ai_docs ai_world (handleSubmit backend_throws alice ai_world)) = [True]
   \<and> map msg_text (new_ai_docs ai_world (handleSubmit backend_throws alice ai_world)) = [apology]
   \<and> alerts (handleSubmit backend_throws alice ai_world) = []"
proof -
  have user: "acceptsMessage backend_throws AiMessages
      (userMessage alice (newMessage (ui ai_world)) None)"
    by (simp add: backend_throws_def accept_all_def)
  have reply: "assistant_reply backend_throws (newMessage (ui ai_world))
      (selectedFile (ui ai_world)) None = ([TextPrompt ''hi''], Inl GenerationFailure)"
    by (simp add: ai_world_sample assistant_reply_def backend_throws_def gen_fails_def)
  have store: "acceptsMessage backend_throws AiMessages
      (case Inl GenerationFailure of Inr t \<Rightarrow> aiMessage alice t | Inl e \<Rightarrow> errorMessage alice)"
    by (simp add: backend_throws_def accept_all_def)
  from C5_ai_turn [OF ai_world_sample(1) ai_world_sample(2) ai_world_sample(3) user reply store]
  show ?thesis
    by (simp add: ai_world_sample)
qed

text \<open>
  C5 (as stated, refuted): with rules that reject assistant-tagged documents and a generation
  backend that throws, the turn persists the user's message and no assistant message; with
  rules that reject a plain reply and accept the apology, the generation step returns a
  reply and the one assistant message persisted is flagged \<^verbatim>\<open>isError\<close>.
\<close>

theorem C5_store_rejects_counterexample:
  "map isAI (aiMessagesColl (db (handleSubmit backend_users_only alice ai_world))) = [False]
   \<and> new_ai_docs ai_world (handleSubmit backend_users_only alice ai_world) = []
   \<and> snd (assistant_reply backend_no_plain_reply ''hi'' None None) = Inr ''Hello!''
   \<and> map isError (new_ai_docs ai_world (handleSubmit backend_no_plain_reply alice ai_world))
       = [True]"
  by (simp add: send_defs sample_defs)


lemma non_image_reply:
  "\<not> is_image f \<Longrightarrow> assistant_reply be prompt (Some f) (Some d) = ([], Inr (ack_text f prompt))"
  by (simp add: assistant_reply_def)

lemma non_image_no_request:
  assumes "selectedFile (ui w) = Some f" and "\<not> is_image f"
  shows "genCalls (handleSubmit be auth w) = genCalls w"
proof (cases "uploadFile be f")
  case None
  with assms show ?thesis
    by (simp add: handleSubmit_def Let_def upload_step_def send_failed_def)
next
  case (Some r)
  have "fst (ai_respond be auth (newMessage (ui w)) (Some f) (Some (fileData_of f r)) st) = []"
    for st
    using assms(2) by (simp add: ai_respond_def non_image_reply)
  then have calls: "ai_respond be auth (newMessage (ui w)) (Some f) (Some (fileData_of f r)) st
      = (c, x) \<Longrightarrow> c = []" for st c x
    by (metis fst_conv)
  show ?thesis
    using assms(1) Some
    by (auto simp: handleSubmit_def Let_def upload_step_def send_failed_def send_done_def
        split: sum.split prod.split dest: calls)
qed

text \<open>
  C6 (amended): for every AI turn whose attachment is not an image (the upload succeeds and
  the user's message is appended), no request is made to the generation backend, and, when
  the store accepts the acknowledgment, the assistant message the turn persists has as text
  the acknowledgment naming the major part of the file's MIME type and the file's name,
  followed by the user's text when there is one and by a fixed question otherwise.
\<close>

theorem C6_non_image_acknowledgment:
  assumes "selectedAI (ui w)" and "selectedFile (ui w) = Some f" and "\<not> is_image f"
    and "uploadFile be f = Some up"
    and "acceptsMessage be AiMessages
           (userMessage auth (newMessage (ui w)) (Some (fileData_of f up)))"
  shows "genCalls (handleSubmit be auth w) = genCalls w
    \<and> (acceptsMessage be AiMessages (aiMessage auth (ack_text f (newMessage (ui w)))) \<longrightarrow>
          map msg_text (new_ai_docs w (handleSubmit be auth w)) = [ack_text f (newMessage (ui w))]
          \<and> map isError (new_ai_docs w (handleSubmit be auth w)) = [False])
    \<and> ack_text f (newMessage (ui w))
        = ''I received your '' @ takeWhile (\<lambda>c. c \<noteq> CHR ''/'') (file_type f) @ '' file ''
          @ [CHR 0x22] @ file_name f @ [CHR 0x22] @ ''. ''
          @ (if newMessage (ui w) = [] then ''How can I help you with this file?''
             else ''Regarding your message: '' @ newMessage (ui w))"
proof (intro conjI impI)
  show "genCalls (handleSubmit be auth w) = genCalls w"
    using assms(2,3) by (rule non_image_no_request)
next
  assume ack: "acceptsMessage be AiMessages (aiMessage auth (ack_text f (newMessage (ui w))))"
  let ?fd = "Some (fileData_of f up)"
  let ?r = "Inr (ack_text f (newMessage (ui w))) :: error + string"
  have guard: "\<not> send_guard (ui w)"
    using assms(1,2) by (simp add: send_guard_def)
  have up: "upload_step be (selectedFile (ui w)) = Inr ?fd"
    using assms(2,4) by (simp add: upload_step_def)
  have reply: "assistant_reply be (newMessage (ui w)) (selectedFile (ui w)) ?fd = ([], ?r)"
    using assms(2,3) by (simp add: non_image_reply)
  have store: "acceptsMessage be AiMessages
      (case ?r of Inr t \<Rightarrow> aiMessage auth t | Inl e \<Rightarrow> errorMessage auth)"
    using ack by simp
  obtain i j k l where coll: "aiMessagesColl (db (handleSubmit be auth w))
      = aiMessagesColl (db w)
        @ [(userMessage auth (newMessage (ui w)) ?fd)\<lparr>msg_id := i, timestamp := j\<rparr>,
           (case ?r of Inr t \<Rightarrow> aiMessage auth t | Inl e \<Rightarrow> errorMessage auth)
             \<lparr>msg_id := k, timestamp := l\<rparr>]"
    using ai_turn_accepted(1) [OF guard assms(1) up assms(5) reply store] by blast
  then have new: "new_ai_docs w (handleSubmit be auth w)
      = [(aiMessage auth (ack_text f (newMessage (ui w))))\<lparr>msg_id := k, timestamp := l\<rparr>]"
    by (simp add: new_ai_docs_def payload_flags)
  show "map msg_text (new_ai_docs w (handleSubmit be auth w)) = [ack_text f (newMessage (ui w))]"
    by (simp add: new payload_flags)
  show "map isError (new_ai_docs w (handleSubmit be auth w)) = [False]"
    by (simp add: new payload_flags)
next
  show "ack_text f (newMessage (ui w))
        = ''I received your '' @ takeWhile (\<lambda>c. c \<noteq> CHR ''/'') (file_type f) @ '' file ''
          @ [CHR 0x22] @ file_name f @ [CHR 0x22] @ ''. ''
          @ (if newMessage (ui w) = [] then ''How can I help you with this file?''
             else ''Regarding your message: '' @ newMessage (ui w))"
    by (simp add: ack_text_def file_category_def)
qed


theorem C6_non_image_acknowledgment_witness:
  "genCalls (handleSubmit backend_ok alice pdf_world) = genCalls pdf_world
   \<and> map msg_text (new_ai_docs pdf_world (handleSubmit backend_ok alice pdf_world))
       = [''I received your application file '' @ [CHR 0x22] @ ''report.pdf'' @ [CHR 0x22]
          @ ''. How can I help you with this file?'']
   \<and> map isError (new_ai_docs pdf_world (handleSubmit backend_ok alice pdf_world)) = [False]"
proof -
  let ?up = "\<lparr>upload_url = ''https://files.example/'' @ file_name report_pdf,
      upload_publicId = file_name report_pdf, upload_resourceType = ''raw''\<rparr>"
  have ai: "selectedAI (ui pdf_world)"
    by (simp add: pdf_world_def)
  have sel: "selectedFile (ui pdf_world) = Some report_pdf"
    by (simp add: pdf_world_def)
  have other: "\<not> is_image report_pdf"
    by (simp add: is_image_def report_pdf_def)
  have up: "uploadFile backend_ok report_pdf = Some ?up"
    by (simp add: backend_ok_def upload_ok_def)
  have user: "acceptsMessage backend_ok AiMessages
      (userMessage alice (newMessage (ui pdf_world)) (Some (fileData_of report_pdf ?up)))"
    by (simp add: backend_ok_def accept_all_def)
  have ack: "acceptsMessage backend_ok AiMessages
      (aiMessage alice (ack_text report_pdf (newMessage (ui pdf_world))))"
    by (simp add: backend_ok_def accept_all_def)
  have nomsg: "newMessage (ui pdf_world) = []"
    by (simp add: pdf_world_def initial_state_def)
  from C6_non_image_acknowledgment [OF ai sel other up user] ack
  show ?thesis
    by (simp add: nomsg report_pdf_def)
qed


lemma send_failed_effect:
  "alerts (send_failed w) = alerts w @ [FailedToSend]" "draft (send_failed w) = draft w"
  "db (send_failed w) = db w"
  by (simp_all add: send_failed_def draft_def)

lemma submit_upload_failed:
  "\<not> send_guard (ui w) \<Longrightarrow> upload_step be (selectedFile (ui w)) = Inl e \<Longrightarrow>
     handleSubmit be auth w = send_failed w"
  by (simp add: handleSubmit_def Let_def)

lemma submit_own_rejected:
  assumes "\<not> send_guard (ui w)" and "upload_step be (selectedFile (ui w)) = Inr fd"
    and "\<not> (if selectedAI (ui w)
             then acceptsMessage be AiMessages (userMessage auth (newMessage (ui w)) fd)
             else acceptsMessage be Messages (messageData auth (ui w) fd))"
  shows "handleSubmit be auth w = send_failed w"
  using assms by (simp add: handleSubmit_def Let_def addDoc_rejected split: if_splits)

lemma submit_chat_accepted:
  assumes "\<not> send_guard (ui w)" and "\<not> selectedAI (ui w)"
    and "upload_step be (selectedFile (ui w)) = Inr fd"
    and "acceptsMessage be Messages (messageData auth (ui w) fd)"
  shows "handleSubmit be auth w =
     send_done (w\<lparr>db := insert_doc Messages
                   ((messageData auth (ui w) fd)\<lparr>msg_id := nextId (db w),
                                                  timestamp := clock (db w)\<rparr>)
                   ((db w)\<lparr>clock := clock (db w) + 1, nextId := nextId (db w) + 1\<rparr>)\<rparr>)"
  using assms by (simp add: handleSubmit_def Let_def addDoc_accepted)

lemma draft_not_cleared: "\<not> send_guard (ui w) \<Longrightarrow> draft w \<noteq> ([], None)"
  by (auto simp: send_guard_def draft_def)

text \<open>
  C6 (as stated, refuted): a PDF sent to the AI target with no text, under rules that reject
  the acknowledgment and accept the apology. No request is made to the generation backend,
  and the one assistant message persisted is the apology, flagged \<^verbatim>\<open>isError\<close>, which
  names neither the category nor the file.
\<close>

theorem C6_rejected_acknowledgment_counterexample:
  "genCalls (handleSubmit backend_no_plain_reply alice pdf_world) = []
   \<and> \<not> acceptsMessage backend_no_plain_reply AiMessages (aiMessage alice (ack_text report_pdf []))
   \<and> map msg_text (new_ai_docs pdf_world (handleSubmit backend_no_plain_reply alice pdf_world))
       = [apology]
   \<and> map isError (new_ai_docs pdf_world (handleSubmit backend_no_plain_reply alice pdf_world))
       = [True]
   \<and> apology \<noteq> ack_text report_pdf []"
  by (simp add: send_defs sample_defs apology_def ack_text_def file_category_def)

lemma ai_respond_outcome:
  "isl (snd (ai_respond be auth p sf fd st))
     = (\<not> ((case snd (assistant_reply be p sf fd) of
              Inr t \<Rightarrow> acceptsMessage be AiMessages (aiMessage auth t)
            | Inl x \<Rightarrow> False)
           \<or> acceptsMessage be AiMessages (errorMessage auth)))"
  by (cases "assistant_reply be p sf fd")
     (auto simp: ai_respond_def addDoc_def split: sum.splits)

lemma ai_send_outcome:
  assumes "\<not> send_guard (ui w)" and "selectedAI (ui w)"
    and "upload_step be (selectedFile (ui w)) = Inr fd"
    and "acceptsMessage be AiMessages (userMessage auth (newMessage (ui w)) fd)"
  shows "if (case snd (assistant_reply be (newMessage (ui w)) (selectedFile (ui w)) fd) of
               Inr t \<Rightarrow> acceptsMessage be AiMessages (aiMessage auth t)
             | Inl x \<Rightarrow> False)
            \<or> acceptsMessage be AiMessages (errorMessage auth)
         then draft (handleSubmit be auth w) = ([], None)
              \<and> alerts (handleSubmit be auth w) = alerts w
         else draft (handleSubmit be auth w) = draft w
              \<and> alerts (handleSubmit be auth w) = alerts w @ [FailedToSend]"
proof -
  obtain st1 where st1: "addDoc be AiMessages (userMessage auth (newMessage (ui w)) fd) (db w)
      = Inr st1"
    using assms(4) by (simp add: addDoc_accepted)
  obtain calls x where resp:
    "ai_respond be auth (newMessage (ui w)) (selectedFile (ui w)) fd st1 = (calls, x)"
    by (cases "ai_respond be auth (newMessage (ui w)) (selectedFile (ui w)) fd st1")
  have out: "isl x = (\<not> ((case snd (assistant_reply be (newMessage (ui w))
                  (selectedFile (ui w)) fd) of
              Inr t \<Rightarrow> acceptsMessage be AiMessages (aiMessage auth t)
            | Inl x \<Rightarrow> False)
           \<or> acceptsMessage be AiMessages (errorMessage auth)))"
    using ai_respond_outcome [of be auth "newMessage (ui w)" "selectedFile (ui w)" fd st1]
    by (simp add: resp)
  show ?thesis
  proof (cases x)
    case (Inl e)
    with handleSubmit_ai [OF assms(1,2,3) st1] resp out show ?thesis
      by (simp add: send_failed_def draft_def)
  next
    case (Inr st2)
    with handleSubmit_ai [OF assms(1,2,3) st1] resp out show ?thesis
      by (simp add: send_done_def draft_def)
  qed
qed

text \<open>
  C7 (amended): for every send that passes the guard, if the upload fails, or the append of
  the user's own message is rejected, then exactly one failure notification is added, the
  draft is unchanged and nothing is written. For a user or group target the draft is
  cleared if and only if the message is appended. For the AI target the draft is cleared if
  and only if the user's message is appended and the store accepts the assistant message
  that follows: the reply or acknowledgment, or else the apology. In every case either the
  draft is cleared and no notification is added, or the draft is unchanged and exactly one
  failure notification is added.
\<close>

theorem C7_send_outcome:
  assumes "\<not> send_guard (ui w)"
  shows
   "(upload_step be (selectedFile (ui w)) = Inl e \<longrightarrow>
        alerts (handleSubmit be auth w) = alerts w @ [FailedToSend]
        \<and> draft (handleSubmit be auth w) = draft w \<and> db (handleSubmit be auth w) = db w)
    \<and> (upload_step be (selectedFile (ui w)) = Inr fd
        \<and> \<not> (if selectedAI (ui w)
               then acceptsMessage be AiMessages (userMessage auth (newMessage (ui w)) fd)
               else acceptsMessage be Messages (messageData auth (ui w) fd)) \<longrightarrow>
        alerts (handleSubmit be auth w) = alerts w @ [FailedToSend]
        \<and> draft (handleSubmit be auth w) = draft w \<and> db (handleSubmit be auth w) = db w)
    \<and> (\<not> selectedAI (ui w) \<and> upload_step be (selectedFile (ui w)) = Inr fd
        \<and> acceptsMessage be Messages (messageData auth (ui w) fd) \<longrightarrow>
        alerts (handleSubmit be auth w) = alerts w
        \<and> draft (handleSubmit be auth w) = ([], None)
        \<and> messagesColl (db (handleSubmit be auth w))
            = messagesColl (db w)
              @ [(messageData auth (ui w) fd)\<lparr>msg_id := nextId (db w),
                                              timestamp := clock (db w)\<rparr>])
    \<and> (\<not> selectedAI (ui w) \<longrightarrow>
        (draft (handleSubmit be auth w) = ([], None))
        = (case upload_step be (selectedFile (ui w)) of
             Inl x \<Rightarrow> False
           | Inr d \<Rightarrow> acceptsMessage be Messages (messageData auth (ui w) d)))
    \<and> (selectedAI (ui w) \<longrightarrow>
        (draft (handleSubmit be auth w) = ([], None))
        = (case upload_step be (selectedFile (ui w)) of
             Inl x \<Rightarrow> False
           | Inr d \<Rightarrow>
               acceptsMessage be AiMessages (userMessage auth (newMessage (ui w)) d)
               \<and> ((case snd (assistant_reply be (newMessage (ui w)) (selectedFile (ui w)) d) of
                      Inr t \<Rightarrow> acceptsMessage be AiMessages (aiMessage auth t)
                    | Inl x \<Rightarrow> False)
                   \<or> acceptsMessage be AiMessages (errorMessage auth))))
    \<and> ((draft (handleSubmit be auth w) = ([], None)
         \<and> alerts (handleSubmit be auth w) = alerts w)
        \<or> (draft (handleSubmit be auth w) = draft w
           \<and> alerts (handleSubmit be auth w) = alerts w @ [FailedToSend]))"
proof -
  let ?ok = "\<lambda>d. (case snd (assistant_reply be (newMessage (ui w)) (selectedFile (ui w)) d) of
                      Inr t \<Rightarrow> acceptsMessage be AiMessages (aiMessage auth t)
                    | Inl x \<Rightarrow> False)
                   \<or> acceptsMessage be AiMessages (errorMessage auth)"
  have both: "(draft (handleSubmit be auth w) = ([], None)
         \<and> alerts (handleSubmit be auth w) = alerts w)
        \<or> (draft (handleSubmit be auth w) = draft w
           \<and> alerts (handleSubmit be auth w) = alerts w @ [FailedToSend])"
  proof (cases "upload_step be (selectedFile (ui w))")
    case (Inl x)
    with assms have "handleSubmit be auth w = send_failed w"
      by (rule submit_upload_failed)
    then show ?thesis by (simp add: send_failed_effect)
  next
    case (Inr d)
    show ?thesis
    proof (cases "if selectedAI (ui w)
               then acceptsMessage be AiMessages (userMessage auth (newMessage (ui w)) d)
               else acceptsMessage be Messages (messageData auth (ui w) d)")
      case False
      with assms Inr have "handleSubmit be auth w = send_failed w"
        by (rule submit_own_rejected)
      then show ?thesis by (simp add: send_failed_effect)
    next
      case True
      show ?thesis
      proof (cases "selectedAI (ui w)")
        case ai: True
        with True have "acceptsMessage be AiMessages (userMessage auth (newMessage (ui w)) d)"
          by simp
        from ai_send_outcome [OF assms ai Inr this] show ?thesis
          by (cases "?ok d") simp_all
      next
        case chat: False
        with True have "acceptsMessage be Messages (messageData auth (ui w) d)"
          by simp
        from submit_chat_accepted [OF assms chat Inr this] show ?thesis
          by (simp add: send_done_def draft_def)
      qed
    qed
  qed
  have ai_iff: "(draft (handleSubmit be auth w) = ([], None))
        = (case upload_step be (selectedFile (ui w)) of
             Inl x \<Rightarrow> False
           | Inr d \<Rightarrow>
               acceptsMessage be AiMessages (userMessage auth (newMessage (ui w)) d) \<and> ?ok d)"
    if ai: "selectedAI (ui w)"
  proof (cases "upload_step be (selectedFile (ui w))")
    case (Inl x)
    with assms have "handleSubmit be auth w = send_failed w"
      by (rule submit_upload_failed)
    with Inl draft_not_cleared [OF assms] show ?thesis
      by (simp add: send_failed_effect)
  next
    case (Inr d)
    show ?thesis
    proof (cases "acceptsMessage be AiMessages (userMessage auth (newMessage (ui w)) d)")
      case False
      with ai have "\<not> (if selectedAI (ui w)
               then acceptsMessage be AiMessages (userMessage auth (newMessage (ui w)) d)
               else acceptsMessage be Messages (messageData auth (ui w) d))"
        by simp
      with assms Inr have "handleSubmit be auth w = send_failed w"
        by (rule submit_own_rejected)
      with Inr False draft_not_cleared [OF assms] show ?thesis
        by (simp add: send_failed_effect)
    next
      case True
      from ai_send_outcome [OF assms ai Inr True] Inr True draft_not_cleared [OF assms]
      show ?thesis
        by (cases "?ok d") simp_all
    qed
  qed
  show ?thesis
  proof (intro conjI impI)
  assume "upload_step be (selectedFile (ui w)) = Inl e"
  with assms have hs: "handleSubmit be auth w = send_failed w"
    by (rule submit_upload_failed)
  show "alerts (handleSubmit be auth w) = alerts w @ [FailedToSend]"
    and "draft (handleSubmit be auth w) = draft w" and "db (handleSubmit be auth w) = db w"
    by (simp_all only: hs send_failed_effect)
next
  assume a: "upload_step be (selectedFile (ui w)) = Inr fd
        \<and> \<not> (if selectedAI (ui w)
               then acceptsMessage be AiMessages (userMessage auth (newMessage (ui w)) fd)
               else acceptsMessage be Messages (messageData auth (ui w) fd))"
  have hs: "handleSubmit be auth w = send_failed w"
    using assms a [THEN conjunct1] a [THEN conjunct2] by (rule submit_own_rejected)
  show "alerts (handleSubmit be auth w) = alerts w @ [FailedToSend]"
    and "draft (handleSubmit be auth w) = draft w" and "db (handleSubmit be auth w) = db w"
    by (simp_all only: hs send_failed_effect)
next
  assume a: "\<not> selectedAI (ui w) \<and> upload_step be (selectedFile (ui w)) = Inr fd
        \<and> acceptsMessage be Messages (messageData auth (ui w) fd)"
  note hs = submit_chat_accepted [OF assms a [THEN conjunct1]
      a [THEN conjunct2, THEN conjunct1] a [THEN conjunct2, THEN conjunct2]]
  show "alerts (handleSubmit be auth w) = alerts w"
    by (simp add: hs send_done_def)
  show "draft (handleSubmit be auth w) = ([], None)"
    by (simp add: hs send_done_def draft_def)
  show "messagesColl (db (handleSubmit be auth w))
      = messagesColl (db w) @ [(messageData auth (ui w) fd)\<lparr>msg_id := nextId (db w),
                                                             timestamp := clock (db w)\<rparr>]"
    by (simp add: hs send_done_def)
next
  assume chat: "\<not> selectedAI (ui w)"
  show "(draft (handleSubmit be auth w) = ([], None))
        = (case upload_step be (selectedFile (ui w)) of
             Inl x \<Rightarrow> False
           | Inr d \<Rightarrow> acceptsMessage be Messages (messageData auth (ui w) d))"
  proof (cases "upload_step be (selectedFile (ui w))")
    case (Inl x)
    with assms have "handleSubmit be auth w = send_failed w"
      by (rule submit_upload_failed)
    with Inl draft_not_cleared [OF assms] show ?thesis
      by (simp add: send_failed_effect)
  next
    case (Inr d)
    show ?thesis
    proof (cases "acceptsMessage be Messages (messageData auth (ui w) d)")
      case True
      from submit_chat_accepted [OF assms chat Inr True] Inr True show ?thesis
        by (simp add: send_done_def draft_def)
    next
      case False
      with chat have "\<not> (if selectedAI (ui w)
               then acceptsMessage be AiMessages (userMessage auth (newMessage (ui w)) d)
               else acceptsMessage be Messages (messageData auth (ui w) d))"
        by simp
      with assms Inr have "handleSubmit be auth w = send_failed w"
        by (rule submit_own_rejected)
      with Inr False draft_not_cleared [OF assms] show ?thesis
        by (simp add: send_failed_effect)
    qed
  qed
  next
    assume "selectedAI (ui w)"
    then show "(draft (handleSubmit be auth w) = ([], None))
        = (case upload_step be (selectedFile (ui w)) of
             Inl x \<Rightarrow> False
           | Inr d \<Rightarrow>
               acceptsMessage be AiMessages (userMessage auth (newMessage (ui w)) d)
               \<and> ((case snd (assistant_reply be (newMessage (ui w)) (selectedFile (ui w)) d) of
                      Inr t \<Rightarrow> acceptsMessage be AiMessages (aiMessage auth t)
                    | Inl x \<Rightarrow> False)
                   \<or> acceptsMessage be AiMessages (errorMessage auth)))"
      by (rule ai_iff)
  next
    show "(draft (handleSubmit be auth w) = ([], None)
         \<and> alerts (handleSubmit be auth w) = alerts w)
        \<or> (draft (handleSubmit be auth w) = draft w
           \<and> alerts (handleSubmit be auth w) = alerts w @ [FailedToSend])"
      by (rule both)
  qed
qed


text \<open>
  C7 (as stated, refuted), on the AI target. When the store rejects the reply and accepts the
  apology, a store append has failed, yet no notification is shown and the draft is
  cleared. When the store rejects every assistant-tagged document, the user's message is
  persisted, yet the failure notification is shown and the draft is kept.
\<close>

theorem C7_assistant_append_counterexample:
  "(snd (assistant_reply backend_no_plain_reply ''hi'' None None) = Inr ''Hello!''
    \<and> \<not> acceptsMessage backend_no_plain_reply AiMessages (aiMessage alice ''Hello!'')
    \<and> alerts (handleSubmit backend_no_plain_reply alice ai_world) = []
    \<and> draft (handleSubmit backend_no_plain_reply alice ai_world) = ([], None))
   \<and> (map msg_text (aiMessagesColl (db (handleSubmit backend_users_only alice ai_world)))
         = [''hi'']
    \<and> alerts (handleSubmit backend_users_only alice ai_world) = [FailedToSend]
    \<and> draft (handleSubmit backend_users_only alice ai_world) = (''hi'', None))"
  by (simp add: send_defs sample_defs)


lemma sample_guards:
  "\<not> send_guard (ui file_world)" "\<not> send_guard (ui bob_world)" "\<not> send_guard (ui ai_world)"
  by (simp_all add: sample_defs send_guard_def space1_def)

lemmas witness_defs =
  sample_defs upload_step_def draft_def assistant_reply_def messageData_def userMessage_def
  aiMessage_def errorMessage_def empty_doc_def

theorem C7_send_outcome_witness:
  "alerts (handleSubmit backend_offline alice file_world) = alerts file_world @ [FailedToSend]
   \<and> draft (handleSubmit backend_offline alice file_world) = draft file_world
   \<and> alerts (handleSubmit backend_offline alice bob_world) = alerts bob_world @ [FailedToSend]
   \<and> draft (handleSubmit backend_offline alice bob_world) = draft bob_world
   \<and> alerts (handleSubmit backend_ok alice bob_world) = alerts bob_world
   \<and> draft (handleSubmit backend_ok alice bob_world) = ([], None)
   \<and> draft (handleSubmit backend_ok alice ai_world) = ([], None)
   \<and> draft (handleSubmit backend_users_only alice ai_world) \<noteq> ([], None)"
proof -
  have up: "upload_step backend_offline (selectedFile (ui file_world)) = Inl UploadFailure"
    by (simp add: witness_defs)
  have rej: "upload_step backend_offline (selectedFile (ui bob_world)) = Inr None
      \<and> \<not> (if selectedAI (ui bob_world)
             then acceptsMessage backend_offline AiMessages
                    (userMessage alice (newMessage (ui bob_world)) None)
             else acceptsMessage backend_offline Messages (messageData alice (ui bob_world) None))"
    by (simp add: witness_defs)
  have acc: "\<not> selectedAI (ui bob_world)
      \<and> upload_step backend_ok (selectedFile (ui bob_world)) = Inr None
      \<and> acceptsMessage backend_ok Messages (messageData alice (ui bob_world) None)"
    by (simp add: witness_defs)
  have ai: "selectedAI (ui ai_world)"
    by (simp add: witness_defs)
  note t1 = C7_send_outcome [OF sample_guards(1), where be = backend_offline
      and auth = alice and e = UploadFailure, THEN conjunct1, THEN mp, OF up]
  note t2 = C7_send_outcome [OF sample_guards(2), where be = backend_offline
      and auth = alice and fd = None, THEN conjunct2, THEN conjunct1, THEN mp, OF rej]
  note t3 = C7_send_outcome [OF sample_guards(2), where be = backend_ok
      and auth = alice and fd = None, THEN conjunct2, THEN conjunct2, THEN conjunct1, THEN mp,
      OF acc]
  note t5 = C7_send_outcome [OF sample_guards(3), where be = backend_ok and auth = alice,
      THEN conjunct2, THEN conjunct2, THEN conjunct2, THEN conjunct2, THEN conjunct1, THEN mp,
      OF ai]
  note t6 = C7_send_outcome [OF sample_guards(3), where be = backend_users_only and auth = alice,
      THEN conjunct2, THEN conjunct2, THEN conjunct2, THEN conjunct2, THEN conjunct1, THEN mp,
      OF ai]
  have c5: "draft (handleSubmit backend_ok alice ai_world) = ([], None)"
    unfolding t5 by (simp add: witness_defs)
  have c6: "draft (handleSubmit backend_users_only alice ai_world) \<noteq> ([], None)"
    unfolding t6 by (simp add: witness_defs)
  from t1 t2 t3 c5 c6 show ?thesis
    by (elim conjE) (intro conjI, assumption+)
qed

subsection \<open>Forwarding\<close>

lemma valid_forward_writes:
  "list_all (valid_write be) (concat (map (forward_writes auth cud m) rs))
     = (\<forall>uid \<in> set rs. acceptsMessage be Messages (forwardedMessage auth cud m uid)
                        \<and> acceptsConvo be (conversationKey (auth_uid auth) uid))"
  by (induction rs) (auto simp: forward_writes_def)

lemma apply_forward_writes:
  "foldl (apply_write t) st (forward_writes auth cud m uid) =
     st\<lparr>messagesColl := messagesColl st
           @ [(forwardedMessage auth cud m uid)\<lparr>msg_id := nextId st, timestamp := t\<rparr>],
        nextId := nextId st + 1,
        conversations := (conversations st)
           (conversationKey (auth_uid auth) uid
              \<mapsto> set_merge (convoData auth m uid) t
                   (conversations st (conversationKey (auth_uid auth) uid)))\<rparr>"
  by (simp add: forward_writes_def)

lemma forward_receivers:
  "map receiverId (messagesColl (foldl (apply_write t) st
       (concat (map (forward_writes auth cud m) rs))))
     = map receiverId (messagesColl st) @ map Some rs"
proof (induction rs arbitrary: st)
  case Nil
  show ?case by simp
next
  case (Cons uid rs)
  have "receiverId (forwardedMessage auth cud m uid) = Some uid"
    by (simp add: forwardedMessage_def)
  then show ?case
    by (simp add: Cons.IH apply_forward_writes del: foldl_Cons)
qed

lemma forward_convo_exists:
  "uid \<in> set rs \<or> conversations st (conversationKey (auth_uid auth) uid) \<noteq> None \<Longrightarrow>
     conversations (foldl (apply_write t) st (concat (map (forward_writes auth cud m) rs)))
       (conversationKey (auth_uid auth) uid) \<noteq> None"
proof (induction rs arbitrary: st)
  case Nil
  then show ?case by simp
next
  case (Cons r rs)
  let ?st = "foldl (apply_write t) st (forward_writes auth cud m r)"
  have "uid \<in> set rs \<or> conversations ?st (conversationKey (auth_uid auth) uid) \<noteq> None"
    using Cons.prems by (auto simp: apply_forward_writes)
  then have "conversations (foldl (apply_write t) ?st
      (concat (map (forward_writes auth cud m) rs))) (conversationKey (auth_uid auth) uid) \<noteq> None"
    by (rule Cons.IH)
  then show ?case by simp
qed


lemma forward_committed:
  assumes "\<forall>uid \<in> set rs. acceptsMessage be Messages (forwardedMessage auth cud m uid)
                        \<and> acceptsConvo be (conversationKey (auth_uid auth) uid)"
  shows "handleForwardMessage be auth cud m rs st =
     ((foldl (apply_write (clock st)) st (concat (map (forward_writes auth cud m) rs)))
        \<lparr>clock := clock st + 1\<rparr>, [])"
  using assms by (simp add: handleForwardMessage_def commit_def valid_forward_writes)

lemma forward_rejected:
  assumes "\<exists>uid \<in> set rs. \<not> acceptsMessage be Messages (forwardedMessage auth cud m uid)
                        \<or> \<not> acceptsConvo be (conversationKey (auth_uid auth) uid)"
  shows "handleForwardMessage be auth cud m rs st = (st, [FailedToForward WriteFailure])"
proof -
  have "\<not> list_all (valid_write be) (concat (map (forward_writes auth cud m) rs))"
    unfolding valid_forward_writes using assms by blast
  then show ?thesis
    by (simp add: handleForwardMessage_def commit_def)
qed

text \<open>
  C8: a forward whose writes include an invalid one (a rejected message document or a
  rejected conversation id, for any recipient) leaves the store as it was and shows one
  failure notification; a forward whose writes are all valid commits them all, one new
  message per element of the recipient list in order, so a recipient listed twice receives
  two messages, and a conversation document for each recipient; an empty recipient list
  commits with no notification and changes no message and no conversation.
\<close>

theorem C8_forward_atomic:
  "((\<exists>uid \<in> set rs. \<not> acceptsMessage be Messages (forwardedMessage auth cud m uid)
                    \<or> \<not> acceptsConvo be (conversationKey (auth_uid auth) uid)) \<longrightarrow>
      handleForwardMessage be auth cud m rs st = (st, [FailedToForward WriteFailure]))
   \<and> ((\<forall>uid \<in> set rs. acceptsMessage be Messages (forwardedMessage auth cud m uid)
                    \<and> acceptsConvo be (conversationKey (auth_uid auth) uid)) \<longrightarrow>
      snd (handleForwardMessage be auth cud m rs st) = []
      \<and> map receiverId (messagesColl (fst (handleForwardMessage be auth cud m rs st)))
          = map receiverId (messagesColl st) @ map Some rs
      \<and> (\<forall>uid \<in> set rs.
            conversations (fst (handleForwardMessage be auth cud m rs st))
              (conversationKey (auth_uid auth) uid) \<noteq> None))
   \<and> snd (handleForwardMessage be auth cud m [] st) = []
   \<and> messagesColl (fst (handleForwardMessage be auth cud m [] st)) = messagesColl st
   \<and> conversations (fst (handleForwardMessage be auth cud m [] st)) = conversations st"
proof (intro conjI impI ballI)
  assume "\<exists>uid \<in> set rs. \<not> acceptsMessage be Messages (forwardedMessage auth cud m uid)
                    \<or> \<not> acceptsConvo be (conversationKey (auth_uid auth) uid)"
  then show "handleForwardMessage be auth cud m rs st = (st, [FailedToForward WriteFailure])"
    by (rule forward_rejected)
next
  assume ok: "\<forall>uid \<in> set rs. acceptsMessage be Messages (forwardedMessage auth cud m uid)
                    \<and> acceptsConvo be (conversationKey (auth_uid auth) uid)"
  note hf = forward_committed [OF ok, of st]
  show "snd (handleForwardMessage be auth cud m rs st) = []"
    by (simp add: hf)
  show "map receiverId (messagesColl (fst (handleForwardMessage be auth cud m rs st)))
          = map receiverId (messagesColl st) @ map Some rs"
    by (simp add: hf forward_receivers)
  fix uid assume "uid \<in> set rs"
  then have "conversations (foldl (apply_write (clock st)) st
      (concat (map (forward_writes auth cud m) rs))) (conversationKey (auth_uid auth) uid) \<noteq> None"
    by (intro forward_convo_exists disjI1)
  then show "conversations (fst (handleForwardMessage be auth cud m rs st))
              (conversationKey (auth_uid auth) uid) \<noteq> None"
    by (simp add: hf)
next
  show "snd (handleForwardMessage be auth cud m [] st) = []"
    by (simp add: handleForwardMessage_def commit_def)
  show "messagesColl (fst (handleForwardMessage be auth cud m [] st)) = messagesColl st"
    by (simp add: handleForwardMessage_def commit_def)
  show "conversations (fst (handleForwardMessage be auth cud m [] st)) = conversations st"
    by (simp add: handleForwardMessage_def commit_def)
qed

theorem C8_forward_atomic_witness:
  "handleForwardMessage backend_strict_ids alice None hello_message
       [''bob'', ''ca/rol'', ''dave''] empty_store
     = (empty_store, [FailedToForward WriteFailure])
   \<and> snd (handleForwardMessage backend_ok alice None hello_message [''bob'', ''bob''] empty_store)
     = []
   \<and> map receiverId (messagesColl (fst (handleForwardMessage backend_ok alice None hello_message
         [''bob'', ''bob''] empty_store)))
     = [Some ''bob'', Some ''bob'']"
proof -
  have bad: "\<exists>uid \<in> set [''bob'', ''ca/rol'', ''dave''].
      \<not> acceptsMessage backend_strict_ids Messages (forwardedMessage alice None hello_message uid)
      \<or> \<not> acceptsConvo backend_strict_ids (conversationKey (auth_uid alice) uid)"
    by (simp add: backend_strict_ids_def no_slash_def accept_all_def conversationKey_def
        participants_of_def alice_def)
  have good: "\<forall>uid \<in> set [''bob'', ''bob''].
      acceptsMessage backend_ok Messages (forwardedMessage alice None hello_message uid)
      \<and> acceptsConvo backend_ok (conversationKey (auth_uid alice) uid)"
    by (simp add: backend_ok_def accept_all_def any_id_def)
  note rejected = C8_forward_atomic [where be = backend_strict_ids and auth = alice
      and cud = None and m = hello_message and rs = "[''bob'', ''ca/rol'', ''dave'']"
      and st = empty_store, THEN conjunct1, THEN mp, OF bad]
  note committed = C8_forward_atomic [where be = backend_ok and auth = alice
      and cud = None and m = hello_message and rs = "[''bob'', ''bob'']"
      and st = empty_store, THEN conjunct2, THEN conjunct1, THEN mp, OF good]
  have "snd (handleForwardMessage backend_ok alice None hello_message [''bob'', ''bob'']
      empty_store) = []"
    using committed by (rule conjunct1)
  moreover have "map receiverId (messagesColl (fst (handleForwardMessage backend_ok alice None
      hello_message [''bob'', ''bob''] empty_store)))
      = map receiverId (messagesColl empty_store) @ map Some [''bob'', ''bob'']"
    using committed by (rule conjunct1 [OF conjunct2])
  then have "map receiverId (messagesColl (fst (handleForwardMessage backend_ok alice None
      hello_message [''bob'', ''bob''] empty_store))) = [Some ''bob'', Some ''bob'']"
    by (simp add: empty_store_def)
  ultimately show ?thesis
    using rejected by (intro conjI)
qed








end
